theory Spec2Isabelle
  imports Main
begin

section \<open>Recursive retrieval (recur.c): data model\<close>

text \<open>
  The model follows \<^verbatim>\<open>src/src/recur.c\<close>. Structures are records, enumerations are
  datatypes, \<^verbatim>\<open>char *\<close> values are strings and a pointer that may be \<^verbatim>\<open>NULL\<close> is an
  option. C \<^verbatim>\<open>int\<close> values (depth, port, recursion level, byte counts) are integers: the
  file performs no arithmetic on them beyond \<^verbatim>\<open>depth + 1\<close>, \<^verbatim>\<open>reclevel - 1\<close> and
  \<^verbatim>\<open>reclevel + 1\<close>. Where two structures of the source have a member of the same name, the
  member carries a prefix here (\<open>upos_url\<close>, \<open>qel_url\<close>); the member \<^verbatim>\<open>file\<close> of
  \<^verbatim>\<open>struct url\<close> is \<open>url_file\<close>, since \<^verbatim>\<open>file\<close> is a reserved word.
\<close>

datatype url_scheme = SCHEME_HTTP | SCHEME_HTTPS | SCHEME_FTP | SCHEME_FTPS | SCHEME_INVALID

text \<open>
  \<^verbatim>\<open>struct url\<close>: the members that recur.c reads. The record is \<open>struct_url\<close>, as a
  record \<open>url\<close> would claim the type name \<open>url_scheme\<close> of the enumeration.
\<close>

record struct_url =
  url :: string
  scheme :: url_scheme
  host :: string
  port :: int
  path :: string
  params :: "string option"
  query :: "string option"
  fragment :: "string option"
  dir :: string
  url_file :: string
  user :: "string option"
  ori_enc :: string

text \<open>\<^verbatim>\<open>struct urlpos\<close>: a child record of the link extractors.\<close>

record urlpos =
  upos_url :: struct_url
  ignore_when_downloading :: bool
  link_relative_p :: bool
  link_inline_p :: bool
  link_expect_html :: bool
  link_expect_css :: bool

record queue_element =
  qel_url :: struct_url
  qel_referer :: "string option"
  qel_depth :: int
  qel_html_allowed :: bool
  qel_css_allowed :: bool

text \<open>
  \<^verbatim>\<open>struct url_queue\<close>: the linked list from \<^verbatim>\<open>head\<close> to \<^verbatim>\<open>tail\<close> is the list
  \<open>elems\<close>, head first.
\<close>

record url_queue =
  elems :: "queue_element list"
  count :: int
  maxcount :: int

datatype reject_reason =
  WG_RR_SUCCESS | WG_RR_BLACKLIST | WG_RR_NOTHTTPS | WG_RR_NONHTTP | WG_RR_ABSOLUTE
  | WG_RR_DOMAIN | WG_RR_PARENT | WG_RR_LIST | WG_RR_REGEX | WG_RR_RULES
  | WG_RR_SPANNEDHOST | WG_RR_ROBOTS

text \<open>
  \<^verbatim>\<open>uerr_t\<close>: recur.c names three members; every other member of the enumeration is
  \<open>UERR_OTHER\<close>.
\<close>

datatype uerr_t = RETROK | FWRITEERR | QUOTEXC | UERR_OTHER nat

text \<open>The bits of \<^verbatim>\<open>dt\<close> that recur.c tests; \<^verbatim>\<open>dt & F\<close> is membership of \<open>F\<close>.\<close>

datatype dt_flag = RETROKF | TEXTHTML | TEXTCSS

datatype auth_mode = URL_AUTH_HIDE | URL_AUTH_HIDE_PASSWD

text \<open>What \<^verbatim>\<open>retrieve_url\<close> hands back: its return value and its three out-parameters.\<close>

record fetch_result =
  rf_status :: uerr_t
  rf_file :: "string option"
  rf_redirected :: "string option"
  rf_dt :: "dt_flag set"

text \<open>
  The members of \<^verbatim>\<open>opt\<close> that recur.c reads (\<^verbatim>\<open>includes\<close> and \<^verbatim>\<open>excludes\<close> with a
  prefix: \<^verbatim>\<open>includes\<close> is a reserved word).
\<close>

record options =
  reclevel :: int
  page_requisites :: bool
  relative_only :: bool
  https_only :: bool
  follow_ftp :: bool
  no_parent :: bool
  spanhost :: bool
  use_robots :: bool
  spider :: bool
  delete_after :: bool
  opt_includes :: "string list option"
  opt_excludes :: "string list option"
  quota :: int
  rejected_log :: "string option"

text \<open>
  Calls that leave recur.c and are observable from outside, in the order they happen.
\<close>

datatype event =
  EV_retrieve_url struct_url "string option"
  | EV_res_retrieve_file struct_url
  | EV_get_urls_html string struct_url
  | EV_get_urls_css_file string struct_url
  | EV_visited_url string "string option"
  | EV_unlink string
  | EV_register_delete_file string

datatype error = AssertionFailure

text \<open>
  Everything recur.c takes from the rest of the program: the build flag \<^verbatim>\<open>HAVE_SSL\<close> and
  the functions of url.c, utils.c, res.c, retr.c, html-url.c, css-url.c and convert.c that
  it calls. None of them is under src/, so each is a parameter. \<open>'w\<close> is the state of
  everything outside recur.c (network, file system, the download maps of convert.c);
  \<open>'s\<close> is \<^verbatim>\<open>struct robot_specs\<close>.
\<close>

record ('w, 's) env =
  HAVE_SSL :: bool
  url_unescape :: "string \<Rightarrow> string"
  schemes_are_similar_p :: "url_scheme \<Rightarrow> url_scheme \<Rightarrow> bool"
  accept_domain :: "struct_url \<Rightarrow> bool"
  subdir_p :: "string \<Rightarrow> string \<Rightarrow> bool"
  accdir :: "string \<Rightarrow> bool"
  accept_url :: "string \<Rightarrow> bool"
  has_html_suffix_p :: "string \<Rightarrow> bool"
  acceptable :: "string \<Rightarrow> bool"
  match_tail :: "string \<Rightarrow> string \<Rightarrow> bool \<Rightarrow> bool"
  url_string :: "struct_url \<Rightarrow> auth_mode \<Rightarrow> string"
  url_parse :: "string \<Rightarrow> string \<Rightarrow> struct_url option"
  res_retrieve_file :: "struct_url \<Rightarrow> 'w \<Rightarrow> string option \<times> 'w"
  res_parse_from_file :: "string \<Rightarrow> 'w \<Rightarrow> 's"
  res_parse_empty :: "'s"
  res_match_path :: "'s \<Rightarrow> string \<Rightarrow> bool"
  retrieve_url :: "struct_url \<Rightarrow> string option \<Rightarrow> 'w \<Rightarrow> fetch_result \<times> 'w"
  total_downloaded_bytes :: "'w \<Rightarrow> int"
  dl_url_file_map :: "'w \<Rightarrow> (string \<Rightarrow> string option) option"
  downloaded_html_set :: "'w \<Rightarrow> string set option"
  downloaded_css_set :: "'w \<Rightarrow> string set option"
  get_urls_html :: "string \<Rightarrow> struct_url \<Rightarrow> 'w \<Rightarrow> urlpos list \<times> bool"
  get_urls_css_file :: "string \<Rightarrow> struct_url \<Rightarrow> 'w \<Rightarrow> urlpos list"
  unlink :: "string \<Rightarrow> 'w \<Rightarrow> 'w"
  fopen_w :: "string \<Rightarrow> 'w \<Rightarrow> bool \<times> 'w"

text \<open>
  The state that \<^verbatim>\<open>retrieve_tree\<close> and its helpers read and write. \<open>rejectedlog\<close> is
  the \<^verbatim>\<open>FILE *\<close>: \<open>None\<close> for \<^verbatim>\<open>NULL\<close>, otherwise the rows written so far, each row
  as the reason, the rejected URL and its parent.
\<close>

record ('w, 's) state =
  world :: 'w
  blacklist :: "string set"
  registered_specs :: "string \<times> int \<Rightarrow> 's option"
  queue :: url_queue
  status :: uerr_t
  rejectedlog :: "(reject_reason \<times> struct_url \<times> struct_url) list option"
  events :: "event list"


section \<open>The operations of recur.c\<close>

subsection \<open>The URL queue (lines 75-158)\<close>

definition url_queue_new :: url_queue where
  "url_queue_new = \<lparr>elems = [], count = 0, maxcount = 0\<rparr>"

definition url_enqueue ::
  "url_queue \<Rightarrow> struct_url \<Rightarrow> string option \<Rightarrow> int \<Rightarrow> bool \<Rightarrow> bool \<Rightarrow> url_queue" where
  "url_enqueue q u referer d html_allowed css_allowed =
     (let qel = \<lparr>qel_url = u, qel_referer = referer, qel_depth = d,
                  qel_html_allowed = html_allowed, qel_css_allowed = css_allowed\<rparr>;
          c = count q + 1
      in \<lparr>elems = elems q @ [qel], count = c,
          maxcount = (if c > maxcount q then c else maxcount q)\<rparr>)"

text \<open>\<open>None\<close> is the return value \<^verbatim>\<open>false\<close>: the queue is empty.\<close>

definition url_dequeue :: "url_queue \<Rightarrow> (queue_element \<times> url_queue) option" where
  "url_dequeue q =
     (case elems q of
        [] \<Rightarrow> None
      | qel # rest \<Rightarrow> Some (qel, q\<lparr>elems := rest, count := count q - 1\<rparr>))"

subsection \<open>The seen-set (lines 160-179)\<close>

text \<open>
  The hash table behind \<^verbatim>\<open>string_set_add\<close> and \<^verbatim>\<open>string_set_contains\<close> is a set of
  strings.
\<close>

definition blacklist_add :: "('w, 's) env \<Rightarrow> string set \<Rightarrow> string \<Rightarrow> string set" where
  "blacklist_add env bl s = insert (url_unescape env s) bl"

definition blacklist_contains :: "('w, 's) env \<Rightarrow> string set \<Rightarrow> string \<Rightarrow> bool" where
  "blacklist_contains env bl s = (url_unescape env s \<in> bl)"

subsection \<open>Constants and library functions\<close>

text \<open>
  Modelled from the spec: the macro \<^verbatim>\<open>INFINITE_RECURSION\<close> (recur.h is not under src/),
  the sentinel of \<^verbatim>\<open>reclevel\<close> that means no bound. The spec treats every level from 0 on
  as a bound, so the sentinel is negative.
\<close>

definition INFINITE_RECURSION :: int where
  "INFINITE_RECURSION = - 1"

definition c_tolower :: "char \<Rightarrow> char" where
  "c_tolower c =
     (let n = (of_char c :: nat) in if 65 \<le> n \<and> n \<le> 90 then char_of (n + 32) else c)"

text \<open>
  \<^verbatim>\<open>strcasecmp\<close> of the C library, in the C locale: the difference of the first two
  bytes that differ after lowering, 0 when there are none.
\<close>

fun strcasecmp :: "string \<Rightarrow> string \<Rightarrow> int" where
  "strcasecmp [] [] = 0"
| "strcasecmp [] (y # ys) = - int (of_char (c_tolower y))"
| "strcasecmp (x # xs) [] = int (of_char (c_tolower x))"
| "strcasecmp (x # xs) (y # ys) =
     (if c_tolower x = c_tolower y then strcasecmp xs ys
      else int (of_char (c_tolower x)) - int (of_char (c_tolower y)))"

subsection \<open>The robots cache\<close>

text \<open>
  Modelled from the spec: \<^verbatim>\<open>res_get_specs\<close> and \<^verbatim>\<open>res_register_specs\<close> (res.c is not
  under src/). The spec gives the robots cache as a map from (host, port) to a parsed
  specification; \<open>None\<close> is the \<^verbatim>\<open>NULL\<close> that \<^verbatim>\<open>res_get_specs\<close> returns for a pair
  with no entry.
\<close>

definition res_get_specs :: "('w, 's) state \<Rightarrow> string \<Rightarrow> int \<Rightarrow> 's option" where
  "res_get_specs st h p = registered_specs st (h, p)"

definition res_register_specs ::
  "string \<Rightarrow> int \<Rightarrow> 's \<Rightarrow> ('w, 's) state \<Rightarrow> ('w, 's) state" where
  "res_register_specs h p specs st =
     st\<lparr>registered_specs := (registered_specs st)((h, p) \<mapsto> specs)\<rparr>"

subsection \<open>The rejection log (lines 845-876)\<close>

text \<open>
  \<^verbatim>\<open>write_reject_log_reason\<close> writes nothing to a \<^verbatim>\<open>NULL\<close> file and one row otherwise.
  The row is kept as its three arguments; the text of its columns is not modelled.
\<close>

definition write_reject_log_reason ::
  "reject_reason \<Rightarrow> struct_url \<Rightarrow> struct_url \<Rightarrow> ('w, 's) state \<Rightarrow> ('w, 's) state" where
  "write_reject_log_reason r u parent st =
     (case rejectedlog st of
        None \<Rightarrow> st
      | Some rows \<Rightarrow> st\<lparr>rejectedlog := Some (rows @ [(r, u, parent)])\<rparr>)"

definition log_event :: "event \<Rightarrow> ('w, 's) state \<Rightarrow> ('w, 's) state" where
  "log_event e st = st\<lparr>events := events st @ [e]\<rparr>"

subsection \<open>The admission filter (lines 519-746)\<close>

text \<open>
  Lines 694-723 of \<^verbatim>\<open>download_child\<close>: the specs of the child's host and port, from the
  cache or, when the cache has none, from \<^verbatim>\<open>res_retrieve_file\<close>; in that case the specs
  (the parsed file, or the dummy \<^verbatim>\<open>res_parse ("", 0)\<close> when the retrieval failed) are
  registered.
\<close>

definition specs_for :: "('w, 's) env \<Rightarrow> options \<Rightarrow> struct_url \<Rightarrow> ('w, 's) state \<Rightarrow> 's \<times> ('w, 's) state" where
  "specs_for env opt u st =
     (case res_get_specs st (host u) (port u) of
        Some specs \<Rightarrow> (specs, st)
      | None \<Rightarrow>
          (case res_retrieve_file env u (world st) of
             (Some rfile, w1) \<Rightarrow>
               (let st1 = log_event (EV_res_retrieve_file u) (st\<lparr>world := w1\<rparr>);
                    specs = res_parse_from_file env rfile w1;
                    st2 = (if delete_after opt \<or> spider opt \<or> match_tail env rfile ''.tmp'' False
                           then log_event (EV_unlink rfile) (st1\<lparr>world := unlink env rfile w1\<rparr>)
                           else st1)
                in (specs, res_register_specs (host u) (port u) specs st2))
           | (None, w1) \<Rightarrow>
               (let st1 = log_event (EV_res_retrieve_file u) (st\<lparr>world := w1\<rparr>);
                    specs = res_parse_empty env
                in (specs, res_register_specs (host u) (port u) specs st1))))"

text \<open>
  \<^verbatim>\<open>download_child\<close>: every \<^verbatim>\<open>goto out\<close> is a branch that returns. The parameter \<open>d\<close>
  is \<^verbatim>\<open>depth\<close>. The code under \<^verbatim>\<open>#ifdef HAVE_SSL\<close> is guarded by \<open>HAVE_SSL env\<close>.
\<close>

definition download_child ::
  "('w, 's) env \<Rightarrow> options \<Rightarrow> urlpos \<Rightarrow> struct_url \<Rightarrow> int \<Rightarrow> struct_url \<Rightarrow> ('w, 's) state
     \<Rightarrow> reject_reason \<times> ('w, 's) state" where
  "download_child env opt upos parent d start_url_parsed st =
     (let u = upos_url upos;
          u_scheme_like_http = schemes_are_similar_p env (scheme u) SCHEME_HTTP
      in
      if blacklist_contains env (blacklist st) (url u) then
        (WG_RR_BLACKLIST,
         if spider opt
         then log_event (EV_visited_url (url u) (Some (url_string env parent URL_AUTH_HIDE_PASSWD))) st
         else st)
      else if HAVE_SSL env \<and> https_only opt \<and> scheme u \<noteq> SCHEME_HTTPS then
        (WG_RR_NOTHTTPS, st)
      else if \<not> u_scheme_like_http
              \<and> \<not> ((scheme u = SCHEME_FTP \<or> (HAVE_SSL env \<and> scheme u = SCHEME_FTPS))
                    \<and> follow_ftp opt) then
        (WG_RR_NONHTTP, st)
      else if u_scheme_like_http \<and> relative_only opt \<and> \<not> link_relative_p upos then
        (WG_RR_ABSOLUTE, st)
      else if \<not> accept_domain env u then
        (WG_RR_DOMAIN, st)
      else if no_parent opt
              \<and> schemes_are_similar_p env (scheme u) (scheme start_url_parsed)
              \<and> 0 = strcasecmp (host u) (host start_url_parsed)
              \<and> (scheme u \<noteq> scheme start_url_parsed \<or> port u = port start_url_parsed)
              \<and> \<not> (page_requisites opt \<and> link_inline_p upos)
              \<and> \<not> subdir_p env (dir start_url_parsed) (dir u) then
        (WG_RR_PARENT, st)
      else if (opt_includes opt \<noteq> None \<or> opt_excludes opt \<noteq> None) \<and> \<not> accdir env (dir u) then
        (WG_RR_LIST, st)
      else if \<not> accept_url env (url u) then
        (WG_RR_REGEX, st)
      else if url_file u \<noteq> []
              \<and> \<not> (has_html_suffix_p env (url_file u)
                    \<and> (reclevel opt = INFINITE_RECURSION
                        \<or> d < reclevel opt - 1
                        \<or> page_requisites opt))
              \<and> \<not> acceptable env (url_file u) then
        (WG_RR_RULES, st)
      else if schemes_are_similar_p env (scheme u) (scheme parent)
              \<and> \<not> spanhost opt \<and> 0 \<noteq> strcasecmp (host parent) (host u) then
        (WG_RR_SPANNEDHOST, st)
      else if use_robots opt \<and> u_scheme_like_http then
        (case specs_for env opt u st of
           (specs, st1) \<Rightarrow>
             if \<not> res_match_path env specs (path u)
             then (WG_RR_ROBOTS, st1\<lparr>blacklist := blacklist_add env (blacklist st1) (url u)\<rparr>)
             else (WG_RR_SUCCESS, st1))
      else (WG_RR_SUCCESS, st))"

subsection \<open>The redirect arbiter (lines 753-790)\<close>

text \<open>
  \<^verbatim>\<open>url_parse\<close> fills \<^verbatim>\<open>new_parsed\<close> from \<^verbatim>\<open>ori_url\<close> and \<^verbatim>\<open>ori_enc\<close>; \<open>None\<close> is a
  parse that leaves \<^verbatim>\<open>new_parsed->url\<close> at \<^verbatim>\<open>NULL\<close>, where the assertion of line 767
  stops the program. \<open>redirect_upos\<close> is the child record of lines 769-770: \<^verbatim>\<open>xnew0\<close>
  clears every flag.
\<close>

definition redirect_upos :: "struct_url \<Rightarrow> urlpos" where
  "redirect_upos new_parsed =
     \<lparr>upos_url = new_parsed, ignore_when_downloading = False, link_relative_p = False,
      link_inline_p = False, link_expect_html = False, link_expect_css = False\<rparr>"

definition descend_redirect ::
  "('w, 's) env \<Rightarrow> options \<Rightarrow> string \<Rightarrow> struct_url \<Rightarrow> int \<Rightarrow> struct_url \<Rightarrow> ('w, 's) state
     \<Rightarrow> error + reject_reason \<times> ('w, 's) state" where
  "descend_redirect env opt redirected orig_parsed d start_url_parsed st =
     (case url_parse env redirected (ori_enc orig_parsed) of
        None \<Rightarrow> Inl AssertionFailure
      | Some new_parsed \<Rightarrow>
          (let upos = redirect_upos new_parsed
           in case download_child env opt upos orig_parsed d start_url_parsed st of
                (reason, st1) \<Rightarrow>
                  if reason = WG_RR_SUCCESS then
                    Inr (reason, st1\<lparr>blacklist := blacklist_add env (blacklist st1) (url (upos_url upos))\<rparr>)
                  else if reason = WG_RR_LIST \<or> reason = WG_RR_REGEX then
                    Inr (WG_RR_SUCCESS,
                         st1\<lparr>blacklist := blacklist_add env (blacklist st1) (url (upos_url upos))\<rparr>)
                  else Inr (reason, st1)))"

subsection \<open>The crawl loop (lines 217-509)\<close>

text \<open>
  Lines 277-345 of the loop body: the local file of the dequeued item, from
  \<^verbatim>\<open>dl_url_file_map\<close> or from \<^verbatim>\<open>retrieve_url\<close>, with the flags \<^verbatim>\<open>descend\<close> and \<^verbatim>\<open>is_css\<close>
  as they stand at line 346. The result is \<open>Inr ((file, descend, is_css), state)\<close>, or
  \<open>Inl\<close> with the state in which the assertion of \<^verbatim>\<open>descend_redirect\<close> failed.
\<close>

definition reuse_or_fetch ::
  "('w, 's) env \<Rightarrow> options \<Rightarrow> struct_url \<Rightarrow> queue_element \<Rightarrow> ('w, 's) state
     \<Rightarrow> error \<times> ('w, 's) state + (string option \<times> bool \<times> bool) \<times> ('w, 's) state" where
  "reuse_or_fetch env opt start_url_parsed qel st =
     (let u = qel_url qel;
          html_allowed = qel_html_allowed qel;
          css_allowed = qel_css_allowed qel
      in
      case (case dl_url_file_map env (world st) of None \<Rightarrow> None | Some m \<Rightarrow> m (url u)) of
        Some f \<Rightarrow>
          (let is_css_bool =
                 (css_allowed
                  \<and> (case downloaded_css_set env (world st) of None \<Rightarrow> False | Some S \<Rightarrow> f \<in> S))
           in if is_css_bool
                 \<or> (html_allowed
                     \<and> (case downloaded_html_set env (world st) of None \<Rightarrow> False | Some S \<Rightarrow> f \<in> S))
              then Inr ((Some f, True, is_css_bool), st)
              else Inr ((Some f, False, False), st))
      | None \<Rightarrow>
          (case retrieve_url env u (qel_referer qel) (world st) of
             (res, w1) \<Rightarrow>
               (let st1 = log_event (EV_retrieve_url u (qel_referer qel))
                            (st\<lparr>world := w1, status := rf_status res\<rparr>);
                    dt = rf_dt res;
                    (descend1, is_css1) =
                      (if html_allowed \<and> rf_file res \<noteq> None \<and> rf_status res = RETROK
                          \<and> RETROKF \<in> dt \<and> TEXTHTML \<in> dt
                       then (True, False) else (False, False));
                    (descend2, is_css2) =
                      (if rf_file res \<noteq> None \<and> rf_status res = RETROK
                          \<and> RETROKF \<in> dt \<and> (TEXTCSS \<in> dt \<or> css_allowed)
                       then (True, True) else (descend1, is_css1))
                in case rf_redirected res of
                     None \<Rightarrow> Inr ((rf_file res, descend2, is_css2), st1)
                   | Some redirected \<Rightarrow>
                       if descend2 then
                         (case descend_redirect env opt redirected u (qel_depth qel)
                                 start_url_parsed st1 of
                            Inl e \<Rightarrow> Inl (e, st1)
                          | Inr (r, st2) \<Rightarrow>
                              if r = WG_RR_SUCCESS then
                                Inr ((rf_file res, descend2, is_css2),
                                     st2\<lparr>blacklist := blacklist_add env (blacklist st2) (url u)\<rparr>)
                              else
                                Inr ((rf_file res, False, is_css2),
                                     write_reject_log_reason r u start_url_parsed st2))
                       else Inr ((rf_file res, descend2, is_css2), st1))))"

text \<open>Lines 352-376: the depth gate. The result is \<open>(descend, dash_p_leaf_HTML)\<close>.\<close>

definition depth_gate :: "options \<Rightarrow> int \<Rightarrow> bool \<Rightarrow> bool \<times> bool" where
  "depth_gate opt d descend =
     (if descend \<and> d \<ge> reclevel opt \<and> reclevel opt \<noteq> INFINITE_RECURSION then
        (if page_requisites opt \<and> (d = reclevel opt \<or> d = reclevel opt + 1)
         then (descend, True)
         else (False, False))
      else (descend, False))"

text \<open>
  Lines 408-443: the loop over the children of one document. \<open>parent\<close> is \<^verbatim>\<open>url\<close>, the
  dequeued item, and \<open>d\<close> its depth.
\<close>

fun walk_children ::
  "('w, 's) env \<Rightarrow> options \<Rightarrow> struct_url \<Rightarrow> struct_url \<Rightarrow> int \<Rightarrow> bool \<Rightarrow> string
     \<Rightarrow> urlpos list \<Rightarrow> ('w, 's) state \<Rightarrow> ('w, 's) state" where
  "walk_children env opt start_url_parsed parent d dash_p_leaf_HTML referer_url [] st = st"
| "walk_children env opt start_url_parsed parent d dash_p_leaf_HTML referer_url (child # rest) st =
     (if ignore_when_downloading child then
        walk_children env opt start_url_parsed parent d dash_p_leaf_HTML referer_url rest st
      else if dash_p_leaf_HTML \<and> \<not> link_inline_p child then
        walk_children env opt start_url_parsed parent d dash_p_leaf_HTML referer_url rest st
      else
        (case download_child env opt child parent d start_url_parsed st of
           (r, st1) \<Rightarrow>
             if r = WG_RR_SUCCESS then
               walk_children env opt start_url_parsed parent d dash_p_leaf_HTML referer_url rest
                 (st1\<lparr>queue := url_enqueue (queue st1) (upos_url child) (Some referer_url) (d + 1)
                                  (link_expect_html child) (link_expect_css child),
                       blacklist := blacklist_add env (blacklist st1) (url (upos_url child))\<rparr>)
             else
               walk_children env opt start_url_parsed parent d dash_p_leaf_HTML referer_url rest
                 (write_reject_log_reason r (upos_url child) parent st1)))"

text \<open>
  Lines 381-449: the document \<open>f\<close> is parsed by the CSS or the HTML extractor and its
  children are walked. \<^verbatim>\<open>get_urls_css_file\<close> leaves \<^verbatim>\<open>meta_disallow_follow\<close> at
  \<^verbatim>\<open>false\<close>; an empty list is the \<^verbatim>\<open>NULL\<close> of \<^verbatim>\<open>children\<close>.
\<close>

definition parse_and_enqueue ::
  "('w, 's) env \<Rightarrow> options \<Rightarrow> struct_url \<Rightarrow> queue_element \<Rightarrow> string \<Rightarrow> bool \<Rightarrow> bool
     \<Rightarrow> ('w, 's) state \<Rightarrow> ('w, 's) state" where
  "parse_and_enqueue env opt start_url_parsed qel f is_css dash_p_leaf_HTML st =
     (let u = qel_url qel;
          (children0, meta_disallow_follow) =
            (if is_css then (get_urls_css_file env f u (world st), False)
             else get_urls_html env f u (world st));
          st1 = log_event (if is_css then EV_get_urls_css_file f u else EV_get_urls_html f u) st;
          children = (if use_robots opt \<and> meta_disallow_follow then [] else children0);
          referer_url = (if user u \<noteq> None then url_string env u URL_AUTH_HIDE else url u)
      in walk_children env opt start_url_parsed u (qel_depth qel) dash_p_leaf_HTML referer_url
           children st1)"

text \<open>Lines 451-473: the local file is removed after use when the options say so.\<close>

definition cleanup ::
  "('w, 's) env \<Rightarrow> options \<Rightarrow> string option \<Rightarrow> ('w, 's) state \<Rightarrow> ('w, 's) state" where
  "cleanup env opt fl st =
     (case fl of
        None \<Rightarrow> st
      | Some f \<Rightarrow>
          if delete_after opt \<or> spider opt \<or> \<not> acceptable env f
          then log_event (EV_register_delete_file f)
                 (log_event (EV_unlink f) (st\<lparr>world := unlink env f (world st)\<rparr>))
          else st)"

text \<open>
  Lines 277-477: one pass of the loop body for the dequeued item \<open>qel\<close>. When
  \<^verbatim>\<open>descend\<close> is set the file is not \<^verbatim>\<open>NULL\<close> (lemma \<open>reuse_or_fetch_descend_file\<close>
  below), so the branch \<open>None\<close> of the extraction is never taken.
\<close>

definition iteration ::
  "('w, 's) env \<Rightarrow> options \<Rightarrow> struct_url \<Rightarrow> queue_element \<Rightarrow> ('w, 's) state
     \<Rightarrow> error \<times> ('w, 's) state + ('w, 's) state" where
  "iteration env opt start_url_parsed qel st =
     (case reuse_or_fetch env opt start_url_parsed qel st of
        Inl e \<Rightarrow> Inl e
      | Inr ((fl, descend0, is_css), st1) \<Rightarrow>
          (let st2 = (if spider opt
                      then log_event (EV_visited_url (url (qel_url qel)) (qel_referer qel)) st1
                      else st1);
               (descend, dash_p_leaf_HTML) = depth_gate opt (qel_depth qel) descend0;
               st3 = (if descend then
                        (case fl of
                           Some f \<Rightarrow>
                             parse_and_enqueue env opt start_url_parsed qel f is_css
                               dash_p_leaf_HTML st2
                         | None \<Rightarrow> st2)
                      else st2)
           in Inr (cleanup env opt fl st3)))"

text \<open>
  The \<^verbatim>\<open>while (1)\<close> of line 249, with fuel: \<open>Running\<close> is a loop that has not left after
  the given number of passes, \<open>Finished\<close> a loop left through one of its three
  \<^verbatim>\<open>break\<close>s, \<open>Aborted\<close> a failed assertion. Each carries the state reached.
\<close>

datatype ('w, 's) run =
  Running "('w, 's) state" | Finished "('w, 's) state" | Aborted "('w, 's) state"

definition quota_exceeded :: "('w, 's) env \<Rightarrow> options \<Rightarrow> ('w, 's) state \<Rightarrow> bool" where
  "quota_exceeded env opt st =
     (quota opt \<noteq> 0 \<and> total_downloaded_bytes env (world st) > quota opt)"

fun while_loop ::
  "('w, 's) env \<Rightarrow> options \<Rightarrow> struct_url \<Rightarrow> nat \<Rightarrow> ('w, 's) state \<Rightarrow> ('w, 's) run" where
  "while_loop env opt start_url_parsed 0 st = Running st"
| "while_loop env opt start_url_parsed (Suc n) st =
     (if quota_exceeded env opt st then Finished st
      else if status st = FWRITEERR then Finished st
      else
        (case url_dequeue (queue st) of
           None \<Rightarrow> Finished st
         | Some (qel, q) \<Rightarrow>
             (case iteration env opt start_url_parsed qel (st\<lparr>queue := q\<rparr>) of
                Inl (e, st1) \<Rightarrow> Aborted st1
              | Inr st1 \<Rightarrow> while_loop env opt start_url_parsed n st1)))"

text \<open>Lines 493-497: what is left of the queue is taken out, item by item.\<close>

function drain :: "url_queue \<Rightarrow> url_queue" where
  "drain q = (case url_dequeue q of None \<Rightarrow> q | Some (qel, q1) \<Rightarrow> drain q1)"
  by pat_completeness auto
termination
  by (relation "measure (\<lambda>q. length (elems q))")
    (auto simp: url_dequeue_def split: list.splits)

text \<open>
  Lines 224-247: the state in which the loop starts, from the world \<open>w\<close> and the robots
  cache \<open>specs\<close> the program has at the call. \<^verbatim>\<open>url_dup\<close> copies the start URL.
\<close>

definition retrieve_tree_init ::
  "('w, 's) env \<Rightarrow> options \<Rightarrow> struct_url \<Rightarrow> 'w \<Rightarrow> (string \<times> int \<Rightarrow> 's option) \<Rightarrow> ('w, 's) state" where
  "retrieve_tree_init env opt start_url_parsed w specs =
     (let start_url = start_url_parsed;
          q = url_enqueue url_queue_new start_url None 0 True False;
          bl = blacklist_add env {} (url start_url_parsed);
          (lg, w1) = (case rejected_log opt of
                        None \<Rightarrow> (None, w)
                      | Some p \<Rightarrow>
                          (case fopen_w env p w of
                             (ok, w2) \<Rightarrow> (if ok then Some [] else None, w2)))
      in \<lparr>world = w1, blacklist = bl, registered_specs = specs, queue = q, status = RETROK,
          rejectedlog = lg, events = []\<rparr>)"

text \<open>Lines 480-508: the log is closed, the queue drained, and the result chosen.\<close>

definition retrieve_tree_exit ::
  "('w, 's) env \<Rightarrow> options \<Rightarrow> ('w, 's) state \<Rightarrow> uerr_t \<times> ('w, 's) state" where
  "retrieve_tree_exit env opt st =
     (let st1 = st\<lparr>rejectedlog := None, queue := drain (queue st)\<rparr>
      in if quota_exceeded env opt st1 then (QUOTEXC, st1)
         else if status st1 = FWRITEERR then (FWRITEERR, st1)
         else (RETROK, st1))"

text \<open>
  \<^verbatim>\<open>retrieve_tree\<close>: \<open>None\<close> when the loop has not left within the fuel, \<open>Inl\<close> when an
  assertion stopped the program, otherwise the value returned and the final state.
\<close>

definition retrieve_tree ::
  "('w, 's) env \<Rightarrow> options \<Rightarrow> struct_url \<Rightarrow> nat \<Rightarrow> 'w \<Rightarrow> (string \<times> int \<Rightarrow> 's option)
     \<Rightarrow> (error \<times> ('w, 's) state + uerr_t \<times> ('w, 's) state) option" where
  "retrieve_tree env opt start_url_parsed fuel w specs =
     (case while_loop env opt start_url_parsed fuel
             (retrieve_tree_init env opt start_url_parsed w specs) of
        Running st \<Rightarrow> None
      | Aborted st \<Rightarrow> Some (Inl (AssertionFailure, st))
      | Finished st \<Rightarrow> Some (Inr (retrieve_tree_exit env opt st)))"

section \<open>The admission rules, one by one\<close>

text \<open>
  The condition of each of the eleven rejecting branches of \<^verbatim>\<open>download_child\<close>, as the
  source writes it, in the order of the source.
\<close>

definition rule_blacklist :: "('w, 's) env \<Rightarrow> urlpos \<Rightarrow> ('w, 's) state \<Rightarrow> bool" where
  "rule_blacklist env upos st = blacklist_contains env (blacklist st) (url (upos_url upos))"

definition rule_https_only :: "('w, 's) env \<Rightarrow> options \<Rightarrow> urlpos \<Rightarrow> bool" where
  "rule_https_only env opt upos =
     (HAVE_SSL env \<and> https_only opt \<and> scheme (upos_url upos) \<noteq> SCHEME_HTTPS)"

definition rule_scheme :: "('w, 's) env \<Rightarrow> options \<Rightarrow> urlpos \<Rightarrow> bool" where
  "rule_scheme env opt upos =
     (let u = upos_url upos in
      \<not> schemes_are_similar_p env (scheme u) SCHEME_HTTP
      \<and> \<not> ((scheme u = SCHEME_FTP \<or> (HAVE_SSL env \<and> scheme u = SCHEME_FTPS)) \<and> follow_ftp opt))"

definition rule_relative_only :: "('w, 's) env \<Rightarrow> options \<Rightarrow> urlpos \<Rightarrow> bool" where
  "rule_relative_only env opt upos =
     (schemes_are_similar_p env (scheme (upos_url upos)) SCHEME_HTTP
      \<and> relative_only opt \<and> \<not> link_relative_p upos)"

definition rule_domain :: "('w, 's) env \<Rightarrow> urlpos \<Rightarrow> bool" where
  "rule_domain env upos = (\<not> accept_domain env (upos_url upos))"

definition rule_no_parent :: "('w, 's) env \<Rightarrow> options \<Rightarrow> urlpos \<Rightarrow> struct_url \<Rightarrow> bool" where
  "rule_no_parent env opt upos start_url_parsed =
     (let u = upos_url upos in
      no_parent opt
      \<and> schemes_are_similar_p env (scheme u) (scheme start_url_parsed)
      \<and> 0 = strcasecmp (host u) (host start_url_parsed)
      \<and> (scheme u \<noteq> scheme start_url_parsed \<or> port u = port start_url_parsed)
      \<and> \<not> (page_requisites opt \<and> link_inline_p upos)
      \<and> \<not> subdir_p env (dir start_url_parsed) (dir u))"

definition rule_directory_lists :: "('w, 's) env \<Rightarrow> options \<Rightarrow> urlpos \<Rightarrow> bool" where
  "rule_directory_lists env opt upos =
     ((opt_includes opt \<noteq> None \<or> opt_excludes opt \<noteq> None) \<and> \<not> accdir env (dir (upos_url upos)))"

definition rule_regex :: "('w, 's) env \<Rightarrow> urlpos \<Rightarrow> bool" where
  "rule_regex env upos = (\<not> accept_url env (url (upos_url upos)))"

definition rule_suffix :: "('w, 's) env \<Rightarrow> options \<Rightarrow> urlpos \<Rightarrow> int \<Rightarrow> bool" where
  "rule_suffix env opt upos d =
     (let u = upos_url upos in
      url_file u \<noteq> []
      \<and> \<not> (has_html_suffix_p env (url_file u)
            \<and> (reclevel opt = INFINITE_RECURSION \<or> d < reclevel opt - 1 \<or> page_requisites opt))
      \<and> \<not> acceptable env (url_file u))"

definition rule_span_host :: "('w, 's) env \<Rightarrow> options \<Rightarrow> urlpos \<Rightarrow> struct_url \<Rightarrow> bool" where
  "rule_span_host env opt upos parent =
     (schemes_are_similar_p env (scheme (upos_url upos)) (scheme parent)
      \<and> \<not> spanhost opt \<and> 0 \<noteq> strcasecmp (host parent) (host (upos_url upos)))"

definition rule_robots :: "('w, 's) env \<Rightarrow> options \<Rightarrow> urlpos \<Rightarrow> ('w, 's) state \<Rightarrow> bool" where
  "rule_robots env opt upos st =
     (let u = upos_url upos in
      use_robots opt \<and> schemes_are_similar_p env (scheme u) SCHEME_HTTP
      \<and> \<not> res_match_path env (fst (specs_for env opt u st)) (path u))"

text \<open>
  The rule chain as the spec describes it: the rules in their fixed order, each with the
  reason it gives, and the reason of the first rule that rejects.
\<close>

definition admission_rules ::
  "('w, 's) env \<Rightarrow> options \<Rightarrow> urlpos \<Rightarrow> struct_url \<Rightarrow> int \<Rightarrow> struct_url \<Rightarrow> ('w, 's) state
     \<Rightarrow> (reject_reason \<times> bool) list" where
  "admission_rules env opt upos parent d start_url_parsed st =
     [(WG_RR_BLACKLIST, rule_blacklist env upos st),
      (WG_RR_NOTHTTPS, rule_https_only env opt upos),
      (WG_RR_NONHTTP, rule_scheme env opt upos),
      (WG_RR_ABSOLUTE, rule_relative_only env opt upos),
      (WG_RR_DOMAIN, rule_domain env upos),
      (WG_RR_PARENT, rule_no_parent env opt upos start_url_parsed),
      (WG_RR_LIST, rule_directory_lists env opt upos),
      (WG_RR_REGEX, rule_regex env upos),
      (WG_RR_RULES, rule_suffix env opt upos d),
      (WG_RR_SPANNEDHOST, rule_span_host env opt upos parent),
      (WG_RR_ROBOTS, rule_robots env opt upos st)]"

fun first_rejection :: "(reject_reason \<times> bool) list \<Rightarrow> reject_reason" where
  "first_rejection [] = WG_RR_SUCCESS"
| "first_rejection ((r, rejects) # rules) = (if rejects then r else first_rejection rules)"

text \<open>
  The no-parent rule in the words of the spec (section 4.C, rule 6): "either scheme
  identical or port identical".
\<close>

definition no_parent_rule_spec :: "('w, 's) env \<Rightarrow> options \<Rightarrow> urlpos \<Rightarrow> struct_url \<Rightarrow> bool" where
  "no_parent_rule_spec env opt upos start_url_parsed =
     (let u = upos_url upos in
      no_parent opt
      \<and> schemes_are_similar_p env (scheme u) (scheme start_url_parsed)
      \<and> 0 = strcasecmp (host u) (host start_url_parsed)
      \<and> (scheme u = scheme start_url_parsed \<or> port u = port start_url_parsed)
      \<and> \<not> (page_requisites opt \<and> link_inline_p upos)
      \<and> \<not> subdir_p env (dir start_url_parsed) (dir u))"

text \<open>The calls of the robots retrieve hook in a trace, each as its host and port.\<close>

fun robots_fetches :: "event list \<Rightarrow> (string \<times> int) list" where
  "robots_fetches [] = []"
| "robots_fetches (EV_res_retrieve_file u # es) = (host u, port u) # robots_fetches es"
| "robots_fetches (e # es) = robots_fetches es"

text \<open>The calls of the fetcher and of the two extractors in a trace.\<close>

fun fetches :: "event list \<Rightarrow> struct_url list" where
  "fetches [] = []"
| "fetches (EV_retrieve_url u r # es) = u # fetches es"
| "fetches (e # es) = fetches es"

fun html_parses :: "event list \<Rightarrow> (string \<times> struct_url) list" where
  "html_parses [] = []"
| "html_parses (EV_get_urls_html f u # es) = (f, u) # html_parses es"
| "html_parses (e # es) = html_parses es"

fun css_parses :: "event list \<Rightarrow> (string \<times> struct_url) list" where
  "css_parses [] = []"
| "css_parses (EV_get_urls_css_file f u # es) = (f, u) # css_parses es"
| "css_parses (e # es) = css_parses es"

text \<open>The state a run has reached.\<close>

fun run_state :: "('w, 's) run \<Rightarrow> ('w, 's) state" where
  "run_state (Running st) = st"
| "run_state (Finished st) = st"
| "run_state (Aborted st) = st"

section \<open>The descent conditions of the loop body, by name\<close>

text \<open>
  Line 277: the file recorded for the item in \<^verbatim>\<open>dl_url_file_map\<close>, if any. Lines 286-291:
  membership of a file in the two download sets, false for a set that is \<^verbatim>\<open>NULL\<close>.
\<close>

definition cached_file :: "('w, 's) env \<Rightarrow> ('w, 's) state \<Rightarrow> queue_element \<Rightarrow> string option" where
  "cached_file env st qel =
     (case dl_url_file_map env (world st) of None \<Rightarrow> None | Some m \<Rightarrow> m (url (qel_url qel)))"

definition in_downloaded_html :: "('w, 's) env \<Rightarrow> ('w, 's) state \<Rightarrow> string \<Rightarrow> bool" where
  "in_downloaded_html env st f =
     (case downloaded_html_set env (world st) of None \<Rightarrow> False | Some S \<Rightarrow> f \<in> S)"

definition in_downloaded_css :: "('w, 's) env \<Rightarrow> ('w, 's) state \<Rightarrow> string \<Rightarrow> bool" where
  "in_downloaded_css env st f =
     (case downloaded_css_set env (world st) of None \<Rightarrow> False | Some S \<Rightarrow> f \<in> S)"

text \<open>Lines 305-306 and 315-317: the two tests on the result of a fetch.\<close>

definition fetch_html_cond :: "queue_element \<Rightarrow> fetch_result \<Rightarrow> bool" where
  "fetch_html_cond qel res =
     (qel_html_allowed qel \<and> rf_file res \<noteq> None \<and> rf_status res = RETROK
      \<and> RETROKF \<in> rf_dt res \<and> TEXTHTML \<in> rf_dt res)"

definition fetch_css_cond :: "queue_element \<Rightarrow> fetch_result \<Rightarrow> bool" where
  "fetch_css_cond qel res =
     (rf_file res \<noteq> None \<and> rf_status res = RETROK
      \<and> RETROKF \<in> rf_dt res \<and> (TEXTCSS \<in> rf_dt res \<or> qel_css_allowed qel))"

text \<open>Lines 302-303: the state after the fetch of the item has returned \<open>res\<close> and left
  the world \<open>w1\<close>.\<close>

definition fetched_state ::
  "queue_element \<Rightarrow> fetch_result \<Rightarrow> 'w \<Rightarrow> ('w, 's) state \<Rightarrow> ('w, 's) state" where
  "fetched_state qel res w1 st =
     log_event (EV_retrieve_url (qel_url qel) (qel_referer qel))
       (st\<lparr>world := w1, status := rf_status res\<rparr>)"

text \<open>
  The two descent conditions in the words of claim C10, for an item \<open>qel\<close>, a file \<open>f\<close>
  and the content type \<open>dt\<close> of a fetch (empty when the file is reused).
\<close>

definition html_descent_condition_claim ::
  "('w, 's) env \<Rightarrow> ('w, 's) state \<Rightarrow> queue_element \<Rightarrow> dt_flag set \<Rightarrow> string \<Rightarrow> bool" where
  "html_descent_condition_claim env st qel dt f =
     (qel_html_allowed qel \<and> (TEXTHTML \<in> dt \<or> in_downloaded_html env st f))"

definition css_descent_condition_claim ::
  "('w, 's) env \<Rightarrow> ('w, 's) state \<Rightarrow> queue_element \<Rightarrow> dt_flag set \<Rightarrow> string \<Rightarrow> bool" where
  "css_descent_condition_claim env st qel dt f =
     (TEXTCSS \<in> dt \<or> qel_css_allowed qel \<or> in_downloaded_css env st f)"

section \<open>Invariants of a crawl\<close>

text \<open>
  The robots retrieve hook has been called at most once for each host and port, and every
  host and port it has been called for has specs in the robots cache.
\<close>

definition robots_inv :: "('w, 's) state \<Rightarrow> bool" where
  "robots_inv st =
     (distinct (robots_fetches (events st))
      \<and> set (robots_fetches (events st)) \<subseteq> dom (registered_specs st))"

text \<open>
  What holds between a state of a crawl and every later state: the seen-set only grows, the
  robots cache keeps its entries, and \<open>robots_inv\<close> is kept.
\<close>

definition crawl_step :: "('w, 's) state \<Rightarrow> ('w, 's) state \<Rightarrow> bool" where
  "crawl_step st st' =
     (blacklist st \<subseteq> blacklist st'
      \<and> registered_specs st \<subseteq>\<^sub>m registered_specs st'
      \<and> (robots_inv st \<longrightarrow> robots_inv st'))"

section \<open>A concrete environment for examples\<close>

text \<open>
  Modelled from the spec: \<^verbatim>\<open>url_unescape\<close> (url.c is not under src/), the percent-decoding
  of section 4.B: every \<^verbatim>\<open>%XX\<close> with two hexadecimal digits collapses to the byte it
  denotes, everything else is kept.
\<close>

definition hex_digit :: "char \<Rightarrow> nat option" where
  "hex_digit c =
     (let n = (of_char c :: nat) in
      if 48 \<le> n \<and> n \<le> 57 then Some (n - 48)
      else if 65 \<le> n \<and> n \<le> 70 then Some (n - 55)
      else if 97 \<le> n \<and> n \<le> 102 then Some (n - 87)
      else None)"

fun percent_decode :: "string \<Rightarrow> string" where
  "percent_decode (c # a # b # rest) =
     (case (hex_digit a, hex_digit b) of
        (Some x, Some y) \<Rightarrow>
          if c = CHR ''%'' then char_of (16 * x + y) # percent_decode rest
          else c # percent_decode (a # b # rest)
      | _ \<Rightarrow> c # percent_decode (a # b # rest))"
| "percent_decode (c # rest) = c # percent_decode rest"
| "percent_decode [] = []"

text \<open>
  Modelled from the spec: \<^verbatim>\<open>subdir_p\<close> (utils.c is not under src/), "the start directory
  is a prefix of the child directory (as directory paths)": the first directory ends where
  the second ends or continues with a slash.
\<close>

definition dir_prefix :: "string \<Rightarrow> string \<Rightarrow> bool" where
  "dir_prefix d1 d2 =
     (d1 = [] \<or> (take (length d1) d2 = d1
                 \<and> (case drop (length d1) d2 of [] \<Rightarrow> True | c # cs \<Rightarrow> c = CHR ''/'')))"

text \<open>
  Modelled from the spec: \<^verbatim>\<open>schemes_are_similar_p\<close> (url.c is not under src/), the
  "scheme class": a scheme is like itself, and HTTP and HTTPS are like each other.
\<close>

definition like_scheme :: "url_scheme \<Rightarrow> url_scheme \<Rightarrow> bool" where
  "like_scheme a b =
     (a = b \<or> (a = SCHEME_HTTP \<and> b = SCHEME_HTTPS) \<or> (a = SCHEME_HTTPS \<and> b = SCHEME_HTTP))"

text \<open>
  The examples run in a small world: its state is the number of bytes downloaded so far,
  every fetch succeeds with an HTML document of 750 bytes, robots specs are lists of
  forbidden path prefixes, nothing has been downloaded before, and documents have no links.
  An example that needs another behaviour updates the field concerned.
\<close>

definition ex_env :: "(int, string list) env" where
  "ex_env =
     \<lparr>HAVE_SSL = True,
      url_unescape = percent_decode,
      schemes_are_similar_p = like_scheme,
      accept_domain = (\<lambda>u. True),
      subdir_p = dir_prefix,
      accdir = (\<lambda>d. True),
      accept_url = (\<lambda>s. True),
      has_html_suffix_p = (\<lambda>f. drop (length f - 5) f = ''.html''),
      acceptable = (\<lambda>f. True),
      match_tail = (\<lambda>f t c. False),
      url_string = (\<lambda>u m. url u),
      url_parse = (\<lambda>s enc. None),
      res_retrieve_file = (\<lambda>u w. (None, w)),
      res_parse_from_file = (\<lambda>f w. []),
      res_parse_empty = [],
      res_match_path = (\<lambda>specs p. list_all (\<lambda>pre. take (length pre) p \<noteq> pre) specs),
      retrieve_url = (\<lambda>u r w.
        (\<lparr>rf_status = RETROK, rf_file = Some (path u), rf_redirected = None,
          rf_dt = {RETROKF, TEXTHTML}\<rparr>, w + 750)),
      total_downloaded_bytes = (\<lambda>w. w),
      dl_url_file_map = (\<lambda>w. None),
      downloaded_html_set = (\<lambda>w. None),
      downloaded_css_set = (\<lambda>w. None),
      get_urls_html = (\<lambda>f u w. ([], False)),
      get_urls_css_file = (\<lambda>f u w. []),
      unlink = (\<lambda>f w. w),
      fopen_w = (\<lambda>p w. (True, w))\<rparr>"

definition ex_opt :: options where
  "ex_opt =
     \<lparr>reclevel = 5, page_requisites = False, relative_only = False, https_only = False,
      follow_ftp = False, no_parent = False, spanhost = False, use_robots = False,
      spider = False, delete_after = False, opt_includes = None, opt_excludes = None,
      quota = 0, rejected_log = None\<rparr>"

definition ex_url :: "url_scheme \<Rightarrow> string \<Rightarrow> int \<Rightarrow> string \<Rightarrow> string \<Rightarrow> struct_url" where
  "ex_url sch h p d f =
     (let pth = (if d = [] then f else d @ ''/'' @ f) in
      \<lparr>url = (if sch = SCHEME_HTTPS then ''https://'' else ''http://'') @ h @ ''/'' @ pth,
       scheme = sch, host = h, port = p, path = pth,
       params = None, query = None, fragment = None, dir = d, url_file = f, user = None,
       ori_enc = ''UTF-8''\<rparr>)"

definition ex_child :: "struct_url \<Rightarrow> urlpos" where
  "ex_child u =
     \<lparr>upos_url = u, ignore_when_downloading = False, link_relative_p = False,
      link_inline_p = False, link_expect_html = True, link_expect_css = False\<rparr>"

definition ex_state :: "(int, string list) state" where
  "ex_state =
     \<lparr>world = 0, blacklist = {}, registered_specs = (\<lambda>hp. None), queue = url_queue_new,
      status = RETROK, rejectedlog = None, events = []\<rparr>"

definition ex_start :: struct_url where
  "ex_start = ex_url SCHEME_HTTP ''h'' 80 ''a'' ''index.html''"

text \<open>The start page links to two pages of its own directory; they link nowhere.\<close>

definition ex_site :: "string \<Rightarrow> struct_url \<Rightarrow> int \<Rightarrow> urlpos list \<times> bool" where
  "ex_site f u w =
     (if f = ''a/index.html''
      then ([ex_child (ex_url SCHEME_HTTP ''h'' 80 ''a'' ''b.html''),
             ex_child (ex_url SCHEME_HTTP ''h'' 80 ''a'' ''c.html'')], False)
      else ([], False))"

section \<open>Properties\<close>

subsection \<open>The seen-set\<close>

text \<open>
  Claim C7. The seen-set works on decoded forms. \<open>blacklist_add\<close> inserts the decoded form
  of its argument and nothing else, so it does the same for two strings with the same decoded
  form. \<open>blacklist_contains\<close> holds exactly when the decoded form of its argument is a
  member of the set: nothing is found in the empty set; after \<open>blacklist_add\<close> of a string,
  every string with the same decoded form is found; a string is found after an insertion
  exactly when it decodes to the inserted string's decoded form or was found before, so a
  string with another decoded form that was not found before is still not found; and the
  answer of \<open>blacklist_contains\<close> is the same for two strings with the same decoded form.
  This holds for every \<^verbatim>\<open>url_unescape\<close>.
\<close>

theorem blacklist_decoded_form:
  "(url_unescape env s1 = url_unescape env s2
      \<longrightarrow> blacklist_contains env (blacklist_add env bl s1) s2)
   \<and> (url_unescape env s = url_unescape env s'
      \<longrightarrow> blacklist_contains env bl s = blacklist_contains env bl s')
   \<and> (blacklist_contains env (blacklist_add env bl s1) s2
      \<longleftrightarrow> url_unescape env s2 = url_unescape env s1 \<or> blacklist_contains env bl s2)
   \<and> \<not> blacklist_contains env {} s
   \<and> (blacklist_contains env bl s \<longleftrightarrow> url_unescape env s \<in> bl)
   \<and> blacklist_add env bl s = insert (url_unescape env s) bl
   \<and> (url_unescape env s1 = url_unescape env s2
      \<longrightarrow> blacklist_add env bl s1 = blacklist_add env bl s2)
   \<and> (url_unescape env s2 \<noteq> url_unescape env s1 \<and> \<not> blacklist_contains env bl s2
      \<longrightarrow> \<not> blacklist_contains env (blacklist_add env bl s1) s2)"
  by (auto simp: blacklist_contains_def blacklist_add_def)

text \<open>
  The two spellings of scenario S3, \<^verbatim>\<open>/x%2F\<close> and \<^verbatim>\<open>/x/\<close>, under the percent-decoding of
  the example environment: after the insertion of the first the second is found, and a URL
  with another decoded form is not.
\<close>

theorem blacklist_decoded_form_witness:
  "url_unescape ex_env ''http://h/x%2F'' = url_unescape ex_env ''http://h/x/''
   \<and> ''http://h/x%2F'' \<noteq> ''http://h/x/''
   \<and> blacklist_contains ex_env (blacklist_add ex_env {} ''http://h/x%2F'') ''http://h/x/''
   \<and> blacklist_contains ex_env {''http://h/x/''} ''http://h/x%2F''
      = blacklist_contains ex_env {''http://h/x/''} ''http://h/x/''
   \<and> url_unescape ex_env ''http://h/y'' \<noteq> url_unescape ex_env ''http://h/x%2F''
   \<and> \<not> blacklist_contains ex_env {} ''http://h/y''
   \<and> \<not> blacklist_contains ex_env (blacklist_add ex_env {} ''http://h/x%2F'') ''http://h/y''
   \<and> blacklist_add ex_env {} ''http://h/x%2F'' = {''http://h/x/''}"
proof -
  have h: "url_unescape ex_env ''http://h/x%2F'' = url_unescape ex_env ''http://h/x/''"
    by code_simp
  have v: "url_unescape ex_env ''http://h/x%2F'' = ''http://h/x/''"
    by code_simp
  have n: "url_unescape ex_env ''http://h/y'' \<noteq> url_unescape ex_env ''http://h/x%2F''"
    by code_simp
  note t1 = blacklist_decoded_form [where env = ex_env and ?s1.0 = "''http://h/x%2F''"
      and ?s2.0 = "''http://h/x/''" and bl = "{}" and s = "''http://h/x%2F''"
      and s' = "''http://h/x/''"]
  note t2 = blacklist_decoded_form [where env = ex_env and s = "''http://h/x%2F''"
      and s' = "''http://h/x/''" and bl = "{''http://h/x/''}"]
  note t3 = blacklist_decoded_form [where env = ex_env and ?s1.0 = "''http://h/x%2F''"
      and ?s2.0 = "''http://h/y''" and bl = "{}" and s = "''http://h/y''"]
  have a: "blacklist_contains ex_env (blacklist_add ex_env {} ''http://h/x%2F'') ''http://h/x/''"
    using t1 h by blast
  have b: "blacklist_contains ex_env {''http://h/x/''} ''http://h/x%2F''
      = blacklist_contains ex_env {''http://h/x/''} ''http://h/x/''"
    using t2 h by blast
  have c: "\<not> blacklist_contains ex_env {} ''http://h/y''"
    using t3 by blast
  have d: "\<not> blacklist_contains ex_env (blacklist_add ex_env {} ''http://h/x%2F'') ''http://h/y''"
    using t3 n c by blast
  have e: "blacklist_add ex_env {} ''http://h/x%2F'' = {''http://h/x/''}"
    using t1 v by simp
  from h a b n c d e show ?thesis by simp
qed

subsection \<open>What each step leaves unchanged\<close>

lemma log_event_simps [simp]:
  "world (log_event e st) = world st"
  "blacklist (log_event e st) = blacklist st"
  "registered_specs (log_event e st) = registered_specs st"
  "queue (log_event e st) = queue st"
  "status (log_event e st) = status st"
  "rejectedlog (log_event e st) = rejectedlog st"
  "events (log_event e st) = events st @ [e]"
  by (simp_all add: log_event_def)

lemma res_register_specs_simps [simp]:
  "world (res_register_specs h p s st) = world st"
  "blacklist (res_register_specs h p s st) = blacklist st"
  "registered_specs (res_register_specs h p s st) = (registered_specs st)((h, p) \<mapsto> s)"
  "queue (res_register_specs h p s st) = queue st"
  "status (res_register_specs h p s st) = status st"
  "rejectedlog (res_register_specs h p s st) = rejectedlog st"
  "events (res_register_specs h p s st) = events st"
  by (simp_all add: res_register_specs_def)

lemma write_reject_log_reason_simps [simp]:
  "world (write_reject_log_reason r u p st) = world st"
  "blacklist (write_reject_log_reason r u p st) = blacklist st"
  "registered_specs (write_reject_log_reason r u p st) = registered_specs st"
  "queue (write_reject_log_reason r u p st) = queue st"
  "status (write_reject_log_reason r u p st) = status st"
  "events (write_reject_log_reason r u p st) = events st"
  by (simp_all add: write_reject_log_reason_def split: option.splits)

lemma fetches_append [simp]: "fetches (es @ es') = fetches es @ fetches es'"
  by (induction es rule: fetches.induct) simp_all

lemma robots_fetches_append [simp]:
  "robots_fetches (es @ es') = robots_fetches es @ robots_fetches es'"
  by (induction es rule: robots_fetches.induct) simp_all

lemma html_parses_append [simp]: "html_parses (es @ es') = html_parses es @ html_parses es'"
  by (induction es rule: html_parses.induct) simp_all

lemma css_parses_append [simp]: "css_parses (es @ es') = css_parses es @ css_parses es'"
  by (induction es rule: css_parses.induct) simp_all

lemma specs_for_frame [simp]:
  "blacklist (snd (specs_for env opt u st)) = blacklist st"
  "queue (snd (specs_for env opt u st)) = queue st"
  "status (snd (specs_for env opt u st)) = status st"
  "rejectedlog (snd (specs_for env opt u st)) = rejectedlog st"
  "fetches (events (snd (specs_for env opt u st))) = fetches (events st)"
  "html_parses (events (snd (specs_for env opt u st))) = html_parses (events st)"
  "css_parses (events (snd (specs_for env opt u st))) = css_parses (events st)"
  by (simp_all add: specs_for_def res_get_specs_def Let_def split: option.splits prod.splits)

subsection \<open>The admission filter, branch by branch\<close>

lemmas rule_defs = rule_blacklist_def rule_https_only_def
      rule_scheme_def rule_relative_only_def rule_domain_def rule_no_parent_def
      rule_directory_lists_def rule_regex_def rule_suffix_def rule_span_host_def
      rule_robots_def

lemma download_child_blacklist:
  "   rule_blacklist env upos st \<Longrightarrow>
   download_child env opt upos parent d start_url_parsed st =
     (WG_RR_BLACKLIST,
      (if spider opt
       then log_event (EV_visited_url (url (upos_url upos))
              (Some (url_string env parent URL_AUTH_HIDE_PASSWD))) st
       else st))"
  by (simp add: download_child_def rule_defs Let_def case_prod_beta)

lemma download_child_https_only:
  "\<not> rule_blacklist env upos st \<Longrightarrow>
   rule_https_only env opt upos \<Longrightarrow>
   download_child env opt upos parent d start_url_parsed st =
     (WG_RR_NOTHTTPS,
      st)"
  by (simp add: download_child_def rule_defs Let_def case_prod_beta)

lemma download_child_scheme:
  "\<not> rule_blacklist env upos st \<Longrightarrow>
   \<not> rule_https_only env opt upos \<Longrightarrow>
   rule_scheme env opt upos \<Longrightarrow>
   download_child env opt upos parent d start_url_parsed st =
     (WG_RR_NONHTTP,
      st)"
  by (simp add: download_child_def rule_defs Let_def case_prod_beta)

lemma download_child_relative_only:
  "\<not> rule_blacklist env upos st \<Longrightarrow>
   \<not> rule_https_only env opt upos \<Longrightarrow>
   \<not> rule_scheme env opt upos \<Longrightarrow>
   rule_relative_only env opt upos \<Longrightarrow>
   download_child env opt upos parent d start_url_parsed st =
     (WG_RR_ABSOLUTE,
      st)"
  by (simp add: download_child_def rule_defs Let_def case_prod_beta)

lemma download_child_domain:
  "\<not> rule_blacklist env upos st \<Longrightarrow>
   \<not> rule_https_only env opt upos \<Longrightarrow>
   \<not> rule_scheme env opt upos \<Longrightarrow>
   \<not> rule_relative_only env opt upos \<Longrightarrow>
   rule_domain env upos \<Longrightarrow>
   download_child env opt upos parent d start_url_parsed st =
     (WG_RR_DOMAIN,
      st)"
  by (simp add: download_child_def rule_defs Let_def case_prod_beta)

lemma download_child_no_parent:
  "\<not> rule_blacklist env upos st \<Longrightarrow>
   \<not> rule_https_only env opt upos \<Longrightarrow>
   \<not> rule_scheme env opt upos \<Longrightarrow>
   \<not> rule_relative_only env opt upos \<Longrightarrow>
   \<not> rule_domain env upos \<Longrightarrow>
   rule_no_parent env opt upos start_url_parsed \<Longrightarrow>
   download_child env opt upos parent d start_url_parsed st =
     (WG_RR_PARENT,
      st)"
  by (simp add: download_child_def rule_defs Let_def case_prod_beta)

lemma download_child_directory_lists:
  "\<not> rule_blacklist env upos st \<Longrightarrow>
   \<not> rule_https_only env opt upos \<Longrightarrow>
   \<not> rule_scheme env opt upos \<Longrightarrow>
   \<not> rule_relative_only env opt upos \<Longrightarrow>
   \<not> rule_domain env upos \<Longrightarrow>
   \<not> rule_no_parent env opt upos start_url_parsed \<Longrightarrow>
   rule_directory_lists env opt upos \<Longrightarrow>
   download_child env opt upos parent d start_url_parsed st =
     (WG_RR_LIST,
      st)"
  by (simp add: download_child_def rule_defs Let_def case_prod_beta)

lemma download_child_regex:
  "\<not> rule_blacklist env upos st \<Longrightarrow>
   \<not> rule_https_only env opt upos \<Longrightarrow>
   \<not> rule_scheme env opt upos \<Longrightarrow>
   \<not> rule_relative_only env opt upos \<Longrightarrow>
   \<not> rule_domain env upos \<Longrightarrow>
   \<not> rule_no_parent env opt upos start_url_parsed \<Longrightarrow>
   \<not> rule_directory_lists env opt upos \<Longrightarrow>
   rule_regex env upos \<Longrightarrow>
   download_child env opt upos parent d start_url_parsed st =
     (WG_RR_REGEX,
      st)"
  by (simp add: download_child_def rule_defs Let_def case_prod_beta)

lemma download_child_suffix:
  "\<not> rule_blacklist env upos st \<Longrightarrow>
   \<not> rule_https_only env opt upos \<Longrightarrow>
   \<not> rule_scheme env opt upos \<Longrightarrow>
   \<not> rule_relative_only env opt upos \<Longrightarrow>
   \<not> rule_domain env upos \<Longrightarrow>
   \<not> rule_no_parent env opt upos start_url_parsed \<Longrightarrow>
   \<not> rule_directory_lists env opt upos \<Longrightarrow>
   \<not> rule_regex env upos \<Longrightarrow>
   rule_suffix env opt upos d \<Longrightarrow>
   download_child env opt upos parent d start_url_parsed st =
     (WG_RR_RULES,
      st)"
  by (simp add: download_child_def rule_defs Let_def case_prod_beta)

lemma download_child_span_host:
  "\<not> rule_blacklist env upos st \<Longrightarrow>
   \<not> rule_https_only env opt upos \<Longrightarrow>
   \<not> rule_scheme env opt upos \<Longrightarrow>
   \<not> rule_relative_only env opt upos \<Longrightarrow>
   \<not> rule_domain env upos \<Longrightarrow>
   \<not> rule_no_parent env opt upos start_url_parsed \<Longrightarrow>
   \<not> rule_directory_lists env opt upos \<Longrightarrow>
   \<not> rule_regex env upos \<Longrightarrow>
   \<not> rule_suffix env opt upos d \<Longrightarrow>
   rule_span_host env opt upos parent \<Longrightarrow>
   download_child env opt upos parent d start_url_parsed st =
     (WG_RR_SPANNEDHOST,
      st)"
  by (simp add: download_child_def rule_defs Let_def case_prod_beta)

lemma download_child_robots:
  "\<not> rule_blacklist env upos st \<Longrightarrow>
   \<not> rule_https_only env opt upos \<Longrightarrow>
   \<not> rule_scheme env opt upos \<Longrightarrow>
   \<not> rule_relative_only env opt upos \<Longrightarrow>
   \<not> rule_domain env upos \<Longrightarrow>
   \<not> rule_no_parent env opt upos start_url_parsed \<Longrightarrow>
   \<not> rule_directory_lists env opt upos \<Longrightarrow>
   \<not> rule_regex env upos \<Longrightarrow>
   \<not> rule_suffix env opt upos d \<Longrightarrow>
   \<not> rule_span_host env opt upos parent \<Longrightarrow>
   rule_robots env opt upos st \<Longrightarrow>
   download_child env opt upos parent d start_url_parsed st =
     (WG_RR_ROBOTS,
      (snd (specs_for env opt (upos_url upos) st))
        \<lparr>blacklist := blacklist_add env (blacklist st) (url (upos_url upos))\<rparr>)"
  by (simp add: download_child_def rule_defs Let_def case_prod_beta)

lemma download_child_success:
  "\<not> rule_blacklist env upos st \<Longrightarrow>
   \<not> rule_https_only env opt upos \<Longrightarrow>
   \<not> rule_scheme env opt upos \<Longrightarrow>
   \<not> rule_relative_only env opt upos \<Longrightarrow>
   \<not> rule_domain env upos \<Longrightarrow>
   \<not> rule_no_parent env opt upos start_url_parsed \<Longrightarrow>
   \<not> rule_directory_lists env opt upos \<Longrightarrow>
   \<not> rule_regex env upos \<Longrightarrow>
   \<not> rule_suffix env opt upos d \<Longrightarrow>
   \<not> rule_span_host env opt upos parent \<Longrightarrow>
   \<not> rule_robots env opt upos st \<Longrightarrow>
   download_child env opt upos parent d start_url_parsed st =
     (WG_RR_SUCCESS,
      if use_robots opt \<and> schemes_are_similar_p env (scheme (upos_url upos)) SCHEME_HTTP
      then snd (specs_for env opt (upos_url upos) st) else st)"
  by (simp add: download_child_def rule_defs Let_def case_prod_beta)


text \<open>\<open>download_child\<close> as a cascade over the rules.\<close>

lemma download_child_eq:
  "download_child env opt upos parent d start_url_parsed st =
     (if rule_blacklist env upos st then
        (WG_RR_BLACKLIST,
         if spider opt
         then log_event (EV_visited_url (url (upos_url upos))
                (Some (url_string env parent URL_AUTH_HIDE_PASSWD))) st
         else st)
      else if rule_https_only env opt upos then (WG_RR_NOTHTTPS, st)
      else if rule_scheme env opt upos then (WG_RR_NONHTTP, st)
      else if rule_relative_only env opt upos then (WG_RR_ABSOLUTE, st)
      else if rule_domain env upos then (WG_RR_DOMAIN, st)
      else if rule_no_parent env opt upos start_url_parsed then (WG_RR_PARENT, st)
      else if rule_directory_lists env opt upos then (WG_RR_LIST, st)
      else if rule_regex env upos then (WG_RR_REGEX, st)
      else if rule_suffix env opt upos d then (WG_RR_RULES, st)
      else if rule_span_host env opt upos parent then (WG_RR_SPANNEDHOST, st)
      else if rule_robots env opt upos st then
        (WG_RR_ROBOTS,
         (snd (specs_for env opt (upos_url upos) st))
           \<lparr>blacklist := blacklist_add env (blacklist st) (url (upos_url upos))\<rparr>)
      else
        (WG_RR_SUCCESS,
         if use_robots opt \<and> schemes_are_similar_p env (scheme (upos_url upos)) SCHEME_HTTP
         then snd (specs_for env opt (upos_url upos) st) else st))"
  by (simp add: download_child_blacklist download_child_https_only download_child_scheme
      download_child_relative_only download_child_domain download_child_no_parent
      download_child_directory_lists download_child_regex download_child_suffix
      download_child_span_host download_child_robots download_child_success)

lemma download_child_frame [simp]:
  "queue (snd (download_child env opt upos parent d start_url_parsed st)) = queue st"
  "status (snd (download_child env opt upos parent d start_url_parsed st)) = status st"
  "rejectedlog (snd (download_child env opt upos parent d start_url_parsed st)) = rejectedlog st"
  "fetches (events (snd (download_child env opt upos parent d start_url_parsed st)))
     = fetches (events st)"
  "html_parses (events (snd (download_child env opt upos parent d start_url_parsed st)))
     = html_parses (events st)"
  "css_parses (events (snd (download_child env opt upos parent d start_url_parsed st)))
     = css_parses (events st)"
  by (simp_all add: download_child_eq)

lemma download_child_blacklist_mono:
  "blacklist st \<subseteq> blacklist (snd (download_child env opt upos parent d start_url_parsed st))"
  by (auto simp: download_child_eq blacklist_add_def)

subsection \<open>The order of the admission rules\<close>

lemma first_rejection_earlier:
  "distinct (map fst rs) \<Longrightarrow> i < j \<Longrightarrow> j < length rs \<Longrightarrow> snd (rs ! i)
     \<Longrightarrow> first_rejection rs \<noteq> fst (rs ! j)"
proof (induction rs arbitrary: i j)
  case Nil
  then show ?case by simp
next
  case (Cons a rs)
  obtain r b where a: "a = (r, b)" by (cases a)
  from Cons.prems obtain j' where j: "j = Suc j'" by (cases j) auto
  show ?case
  proof (cases b)
    case True
    have "j' < length rs"
      using Cons.prems j by simp
    then have "fst (rs ! j') \<in> set (map fst rs)"
      by (auto intro!: imageI nth_mem)
    with Cons.prems a True j show ?thesis by auto
  next
    case False
    with Cons.prems a obtain i' where i: "i = Suc i'" by (cases i) auto
    with Cons.prems a False j Cons.IH [of i' j'] show ?thesis by auto
  qed
qed

text \<open>
  Claim C1. The reason that \<open>download_child\<close> returns is the reason of the first rule, in
  the order seen-set, HTTPS-only, scheme class, relative-only, domain, no-parent, directory
  lists, URL regex, suffix rules, span-host, robots, whose condition holds, and
  \<open>WG_RR_SUCCESS\<close> when none holds. So when an earlier and a later rule both reject, the
  result is never the later rule's reason.
\<close>

theorem download_child_rule_order:
  "fst (download_child env opt upos parent d start_url_parsed st)
     = first_rejection (admission_rules env opt upos parent d start_url_parsed st)
   \<and> map fst (admission_rules env opt upos parent d start_url_parsed st)
     = [WG_RR_BLACKLIST, WG_RR_NOTHTTPS, WG_RR_NONHTTP, WG_RR_ABSOLUTE, WG_RR_DOMAIN,
        WG_RR_PARENT, WG_RR_LIST, WG_RR_REGEX, WG_RR_RULES, WG_RR_SPANNEDHOST, WG_RR_ROBOTS]
   \<and> (\<forall>i j. i < j \<and> j < length (admission_rules env opt upos parent d start_url_parsed st)
          \<and> snd (admission_rules env opt upos parent d start_url_parsed st ! i)
        \<longrightarrow> fst (download_child env opt upos parent d start_url_parsed st)
            \<noteq> fst (admission_rules env opt upos parent d start_url_parsed st ! j))"
proof -
  let ?rs = "admission_rules env opt upos parent d start_url_parsed st"
  have order: "map fst ?rs
     = [WG_RR_BLACKLIST, WG_RR_NOTHTTPS, WG_RR_NONHTTP, WG_RR_ABSOLUTE, WG_RR_DOMAIN,
        WG_RR_PARENT, WG_RR_LIST, WG_RR_REGEX, WG_RR_RULES, WG_RR_SPANNEDHOST, WG_RR_ROBOTS]"
    by (simp add: admission_rules_def)
  have first: "fst (download_child env opt upos parent d start_url_parsed st) = first_rejection ?rs"
    by (simp add: download_child_eq admission_rules_def)
  have "distinct (map fst ?rs)"
    by (simp add: order)
  then have "\<forall>i j. i < j \<and> j < length ?rs \<and> snd (?rs ! i) \<longrightarrow> first_rejection ?rs \<noteq> fst (?rs ! j)"
    using first_rejection_earlier by blast
  with order first show ?thesis by simp
qed

text \<open>
  A child of another directory on the start URL's host, linked from a page of another host,
  with no-parent on: the no-parent rule (index 5) and the span-host rule (index 9) both
  reject, and the reason is \<open>WG_RR_PARENT\<close>.
\<close>

theorem download_child_rule_order_witness:
  "snd (admission_rules ex_env (ex_opt\<lparr>no_parent := True\<rparr>)
          (ex_child (ex_url SCHEME_HTTP ''h'' 80 ''b'' ''b.html''))
          (ex_url SCHEME_HTTP ''g'' 80 ''a'' ''index.html'') 0 ex_start ex_state ! 5)
   \<and> snd (admission_rules ex_env (ex_opt\<lparr>no_parent := True\<rparr>)
          (ex_child (ex_url SCHEME_HTTP ''h'' 80 ''b'' ''b.html''))
          (ex_url SCHEME_HTTP ''g'' 80 ''a'' ''index.html'') 0 ex_start ex_state ! 9)
   \<and> fst (download_child ex_env (ex_opt\<lparr>no_parent := True\<rparr>)
          (ex_child (ex_url SCHEME_HTTP ''h'' 80 ''b'' ''b.html''))
          (ex_url SCHEME_HTTP ''g'' 80 ''a'' ''index.html'') 0 ex_start ex_state)
       = WG_RR_PARENT"
proof -
  let ?rs = "admission_rules ex_env (ex_opt\<lparr>no_parent := True\<rparr>)
          (ex_child (ex_url SCHEME_HTTP ''h'' 80 ''b'' ''b.html''))
          (ex_url SCHEME_HTTP ''g'' 80 ''a'' ''index.html'') 0 ex_start ex_state"
  have a: "snd (?rs ! 5)" by code_simp
  have b: "snd (?rs ! 9)" by code_simp
  have c: "first_rejection ?rs = WG_RR_PARENT" by code_simp
  from download_child_rule_order [of ex_env "ex_opt\<lparr>no_parent := True\<rparr>"
      "ex_child (ex_url SCHEME_HTTP ''h'' 80 ''b'' ''b.html'')"
      "ex_url SCHEME_HTTP ''g'' 80 ''a'' ''index.html''" 0 ex_start ex_state]
  have "fst (download_child ex_env (ex_opt\<lparr>no_parent := True\<rparr>)
          (ex_child (ex_url SCHEME_HTTP ''h'' 80 ''b'' ''b.html''))
          (ex_url SCHEME_HTTP ''g'' 80 ''a'' ''index.html'') 0 ex_start ex_state)
       = first_rejection ?rs"
    by (rule conjunct1)
  with a b c show ?thesis by simp
qed

subsection \<open>The no-parent rule\<close>

text \<open>
  Claim C2, amended. When none of the five earlier rules rejects, \<open>download_child\<close>
  returns \<open>WG_RR_PARENT\<close> exactly when no-parent is configured, the child and the start
  URL have similar schemes and the same host up to case, their schemes differ or their ports
  are equal, the link is not an inline link under page-requisites, and the start directory is
  not a prefix of the child's directory. The claim has "scheme identical" where the code
  has "scheme different".
\<close>

theorem no_parent_rule_condition:
  assumes "\<not> rule_blacklist env upos st"
    and "\<not> rule_https_only env opt upos"
    and "\<not> rule_scheme env opt upos"
    and "\<not> rule_relative_only env opt upos"
    and "\<not> rule_domain env upos"
  shows "fst (download_child env opt upos parent d start_url_parsed st) = WG_RR_PARENT
     \<longleftrightarrow> (no_parent opt
          \<and> schemes_are_similar_p env (scheme (upos_url upos)) (scheme start_url_parsed)
          \<and> strcasecmp (host (upos_url upos)) (host start_url_parsed) = 0
          \<and> (scheme (upos_url upos) \<noteq> scheme start_url_parsed
              \<or> port (upos_url upos) = port start_url_parsed)
          \<and> \<not> (page_requisites opt \<and> link_inline_p upos)
          \<and> \<not> subdir_p env (dir start_url_parsed) (dir (upos_url upos)))"
proof -
  have "fst (download_child env opt upos parent d start_url_parsed st) = WG_RR_PARENT
     \<longleftrightarrow> rule_no_parent env opt upos start_url_parsed"
    using assms by (simp add: download_child_eq)
  then show ?thesis
    by (auto simp: rule_no_parent_def Let_def)
qed

text \<open>
  The start URL is \<^verbatim>\<open>http://h/a/index.html\<close> on port 80; the child \<^verbatim>\<open>https://h/b/b.html\<close>
  on port 443 leaves the start directory and is rejected.
\<close>

theorem no_parent_rule_condition_witness:
  "fst (download_child ex_env (ex_opt\<lparr>no_parent := True\<rparr>)
          (ex_child (ex_url SCHEME_HTTPS ''h'' 443 ''b'' ''b.html'')) ex_start 0 ex_start ex_state)
     = WG_RR_PARENT"
proof -
  let ?opt = "ex_opt\<lparr>no_parent := True\<rparr>"
  let ?c = "ex_child (ex_url SCHEME_HTTPS ''h'' 443 ''b'' ''b.html'')"
  have 1: "\<not> rule_blacklist ex_env ?c ex_state" by code_simp
  have 2: "\<not> rule_https_only ex_env ?opt ?c" by code_simp
  have 3: "\<not> rule_scheme ex_env ?opt ?c" by code_simp
  have 4: "\<not> rule_relative_only ex_env ?opt ?c" by code_simp
  have 5: "\<not> rule_domain ex_env ?c" by code_simp
  have 6: "no_parent ?opt
          \<and> schemes_are_similar_p ex_env (scheme (upos_url ?c)) (scheme ex_start)
          \<and> strcasecmp (host (upos_url ?c)) (host ex_start) = 0
          \<and> (scheme (upos_url ?c) \<noteq> scheme ex_start \<or> port (upos_url ?c) = port ex_start)
          \<and> \<not> (page_requisites ?opt \<and> link_inline_p ?c)
          \<and> \<not> subdir_p ex_env (dir ex_start) (dir (upos_url ?c))"
    by code_simp
  show ?thesis
    using no_parent_rule_condition [OF 1 2 3 4 5, of ex_start 0 ex_start] 6 by blast
qed

text \<open>
  The claim as stated fails in both directions. The child \<^verbatim>\<open>http://h/b/b.html\<close> on port
  8080 has the scheme of the start URL and another port: the condition of the claim holds, no
  earlier rule rejects, and the child is admitted. The child \<^verbatim>\<open>https://h/b/b.html\<close> on port
  443 has neither the scheme nor the port of the start URL: the condition of the claim fails,
  and the child is rejected with \<open>WG_RR_PARENT\<close>.
\<close>

theorem no_parent_rule_counterexample:
  "no_parent_rule_spec ex_env (ex_opt\<lparr>no_parent := True\<rparr>)
       (ex_child (ex_url SCHEME_HTTP ''h'' 8080 ''b'' ''b.html'')) ex_start
   \<and> \<not> rule_blacklist ex_env (ex_child (ex_url SCHEME_HTTP ''h'' 8080 ''b'' ''b.html'')) ex_state
   \<and> \<not> rule_https_only ex_env (ex_opt\<lparr>no_parent := True\<rparr>)
         (ex_child (ex_url SCHEME_HTTP ''h'' 8080 ''b'' ''b.html''))
   \<and> \<not> rule_scheme ex_env (ex_opt\<lparr>no_parent := True\<rparr>)
         (ex_child (ex_url SCHEME_HTTP ''h'' 8080 ''b'' ''b.html''))
   \<and> \<not> rule_relative_only ex_env (ex_opt\<lparr>no_parent := True\<rparr>)
         (ex_child (ex_url SCHEME_HTTP ''h'' 8080 ''b'' ''b.html''))
   \<and> \<not> rule_domain ex_env (ex_child (ex_url SCHEME_HTTP ''h'' 8080 ''b'' ''b.html''))
   \<and> fst (download_child ex_env (ex_opt\<lparr>no_parent := True\<rparr>)
          (ex_child (ex_url SCHEME_HTTP ''h'' 8080 ''b'' ''b.html'')) ex_start 0 ex_start ex_state)
       = WG_RR_SUCCESS
   \<and> \<not> no_parent_rule_spec ex_env (ex_opt\<lparr>no_parent := True\<rparr>)
       (ex_child (ex_url SCHEME_HTTPS ''h'' 443 ''b'' ''b.html'')) ex_start
   \<and> fst (download_child ex_env (ex_opt\<lparr>no_parent := True\<rparr>)
          (ex_child (ex_url SCHEME_HTTPS ''h'' 443 ''b'' ''b.html'')) ex_start 0 ex_start ex_state)
       = WG_RR_PARENT"
  by code_simp

subsection \<open>The suffix rules\<close>

text \<open>
  Claim C8. \<open>download_child\<close> never returns \<open>WG_RR_RULES\<close> for a URL with an empty file
  component, nor for a file with an HTML suffix when the recursion depth is infinite, or
  \<open>d < reclevel - 1\<close>, or page-requisites is on. In every other case a file that
  \<^verbatim>\<open>acceptable\<close> refuses is rejected with \<open>WG_RR_RULES\<close>, provided none of the eight
  earlier rules rejects.
\<close>

theorem suffix_rule_skipped:
  "(url_file (upos_url upos) = []
      \<longrightarrow> fst (download_child env opt upos parent d start_url_parsed st) \<noteq> WG_RR_RULES)
   \<and> (has_html_suffix_p env (url_file (upos_url upos))
        \<and> (reclevel opt = INFINITE_RECURSION \<or> d < reclevel opt - 1 \<or> page_requisites opt)
      \<longrightarrow> fst (download_child env opt upos parent d start_url_parsed st) \<noteq> WG_RR_RULES)
   \<and> (url_file (upos_url upos) \<noteq> []
        \<and> \<not> (has_html_suffix_p env (url_file (upos_url upos))
              \<and> (reclevel opt = INFINITE_RECURSION \<or> d < reclevel opt - 1
                  \<or> page_requisites opt))
        \<and> \<not> acceptable env (url_file (upos_url upos))
        \<and> \<not> rule_blacklist env upos st \<and> \<not> rule_https_only env opt upos
        \<and> \<not> rule_scheme env opt upos \<and> \<not> rule_relative_only env opt upos
        \<and> \<not> rule_domain env upos \<and> \<not> rule_no_parent env opt upos start_url_parsed
        \<and> \<not> rule_directory_lists env opt upos \<and> \<not> rule_regex env upos
      \<longrightarrow> fst (download_child env opt upos parent d start_url_parsed st) = WG_RR_RULES)"
proof -
  have a: "rule_suffix env opt upos d \<longleftrightarrow>
      url_file (upos_url upos) \<noteq> []
        \<and> \<not> (has_html_suffix_p env (url_file (upos_url upos))
              \<and> (reclevel opt = INFINITE_RECURSION \<or> d < reclevel opt - 1
                  \<or> page_requisites opt))
        \<and> \<not> acceptable env (url_file (upos_url upos))"
    by (simp add: rule_suffix_def Let_def)
  have b: "fst (download_child env opt upos parent d start_url_parsed st) = WG_RR_RULES
      \<Longrightarrow> rule_suffix env opt upos d"
    by (simp add: download_child_eq split: if_splits)
  have c: "rule_suffix env opt upos d \<Longrightarrow>
        \<not> rule_blacklist env upos st \<Longrightarrow> \<not> rule_https_only env opt upos
        \<Longrightarrow> \<not> rule_scheme env opt upos \<Longrightarrow> \<not> rule_relative_only env opt upos
        \<Longrightarrow> \<not> rule_domain env upos \<Longrightarrow> \<not> rule_no_parent env opt upos start_url_parsed
        \<Longrightarrow> \<not> rule_directory_lists env opt upos \<Longrightarrow> \<not> rule_regex env upos
        \<Longrightarrow> fst (download_child env opt upos parent d start_url_parsed st) = WG_RR_RULES"
    by (simp add: download_child_eq)
  show ?thesis
    using a b c by blast
qed

text \<open>
  With suffix rules that refuse every file and \<open>reclevel = 5\<close>: a directory URL and an
  HTML page found at depth 3 are not rejected by the suffix rules; the same page found at
  depth 4 and an image are.
\<close>

theorem suffix_rule_skipped_witness:
  "fst (download_child (ex_env\<lparr>acceptable := (\<lambda>f. False)\<rparr>) ex_opt
          (ex_child (ex_url SCHEME_HTTP ''h'' 80 ''a'' [])) ex_start 4 ex_start ex_state)
     \<noteq> WG_RR_RULES
   \<and> fst (download_child (ex_env\<lparr>acceptable := (\<lambda>f. False)\<rparr>) ex_opt
          (ex_child (ex_url SCHEME_HTTP ''h'' 80 ''a'' ''b.html'')) ex_start 3 ex_start ex_state)
     \<noteq> WG_RR_RULES
   \<and> fst (download_child (ex_env\<lparr>acceptable := (\<lambda>f. False)\<rparr>) ex_opt
          (ex_child (ex_url SCHEME_HTTP ''h'' 80 ''a'' ''b.html'')) ex_start 4 ex_start ex_state)
     = WG_RR_RULES
   \<and> fst (download_child (ex_env\<lparr>acceptable := (\<lambda>f. False)\<rparr>) ex_opt
          (ex_child (ex_url SCHEME_HTTP ''h'' 80 ''a'' ''b.png'')) ex_start 0 ex_start ex_state)
     = WG_RR_RULES"
proof -
  let ?env = "ex_env\<lparr>acceptable := (\<lambda>f. False)\<rparr>"
  let ?dir = "ex_child (ex_url SCHEME_HTTP ''h'' 80 ''a'' [])"
  let ?html = "ex_child (ex_url SCHEME_HTTP ''h'' 80 ''a'' ''b.html'')"
  let ?png = "ex_child (ex_url SCHEME_HTTP ''h'' 80 ''a'' ''b.png'')"
  have 1: "url_file (upos_url ?dir) = []" by code_simp
  have 2: "has_html_suffix_p ?env (url_file (upos_url ?html))
        \<and> (reclevel ex_opt = INFINITE_RECURSION \<or> 3 < reclevel ex_opt - 1
            \<or> page_requisites ex_opt)"
    by code_simp
  have 3: "url_file (upos_url ?html) \<noteq> []
        \<and> \<not> (has_html_suffix_p ?env (url_file (upos_url ?html))
              \<and> (reclevel ex_opt = INFINITE_RECURSION \<or> 4 < reclevel ex_opt - 1
                  \<or> page_requisites ex_opt))
        \<and> \<not> acceptable ?env (url_file (upos_url ?html))
        \<and> \<not> rule_blacklist ?env ?html ex_state \<and> \<not> rule_https_only ?env ex_opt ?html
        \<and> \<not> rule_scheme ?env ex_opt ?html \<and> \<not> rule_relative_only ?env ex_opt ?html
        \<and> \<not> rule_domain ?env ?html \<and> \<not> rule_no_parent ?env ex_opt ?html ex_start
        \<and> \<not> rule_directory_lists ?env ex_opt ?html \<and> \<not> rule_regex ?env ?html"
    by code_simp
  have 4: "url_file (upos_url ?png) \<noteq> []
        \<and> \<not> (has_html_suffix_p ?env (url_file (upos_url ?png))
              \<and> (reclevel ex_opt = INFINITE_RECURSION \<or> 0 < reclevel ex_opt - 1
                  \<or> page_requisites ex_opt))
        \<and> \<not> acceptable ?env (url_file (upos_url ?png))
        \<and> \<not> rule_blacklist ?env ?png ex_state \<and> \<not> rule_https_only ?env ex_opt ?png
        \<and> \<not> rule_scheme ?env ex_opt ?png \<and> \<not> rule_relative_only ?env ex_opt ?png
        \<and> \<not> rule_domain ?env ?png \<and> \<not> rule_no_parent ?env ex_opt ?png ex_start
        \<and> \<not> rule_directory_lists ?env ex_opt ?png \<and> \<not> rule_regex ?env ?png"
    by code_simp
  show ?thesis
    using suffix_rule_skipped [of ?dir ?env ex_opt ex_start 4 ex_start ex_state] 1
      suffix_rule_skipped [of ?html ?env ex_opt ex_start 3 ex_start ex_state] 2
      suffix_rule_skipped [of ?html ?env ex_opt ex_start 4 ex_start ex_state] 3
      suffix_rule_skipped [of ?png ?env ex_opt ex_start 0 ex_start ex_state] 4
    by blast
qed

subsection \<open>The loop body, step by step\<close>

lemma cleanup_frame [simp]:
  "blacklist (cleanup env opt fl st) = blacklist st"
  "registered_specs (cleanup env opt fl st) = registered_specs st"
  "queue (cleanup env opt fl st) = queue st"
  "status (cleanup env opt fl st) = status st"
  "rejectedlog (cleanup env opt fl st) = rejectedlog st"
  "fetches (events (cleanup env opt fl st)) = fetches (events st)"
  "robots_fetches (events (cleanup env opt fl st)) = robots_fetches (events st)"
  "html_parses (events (cleanup env opt fl st)) = html_parses (events st)"
  "css_parses (events (cleanup env opt fl st)) = css_parses (events st)"
  by (simp_all add: cleanup_def split: option.splits)

lemma depth_gate_False [simp]: "depth_gate opt d False = (False, False)"
  by (simp add: depth_gate_def)

text \<open>The redirect arbiter, by the reason of the admission filter.\<close>

lemma descend_redirect_eq:
  assumes "url_parse env redirected (ori_enc orig_parsed) = Some r"
  shows "descend_redirect env opt redirected orig_parsed d start_url_parsed st =
     (case download_child env opt (redirect_upos r) orig_parsed d start_url_parsed st of
        (reason, st1) \<Rightarrow>
          if reason \<in> {WG_RR_SUCCESS, WG_RR_LIST, WG_RR_REGEX}
          then Inr (WG_RR_SUCCESS, st1\<lparr>blacklist := blacklist_add env (blacklist st1) (url r)\<rparr>)
          else Inr (reason, st1))"
  using assms
  by (simp add: descend_redirect_def Let_def redirect_upos_def split: prod.splits)

lemma crawl_step_refl [simp]: "crawl_step st st"
  by (simp add: crawl_step_def)

lemma crawl_step_trans: "crawl_step a b \<Longrightarrow> crawl_step b c \<Longrightarrow> crawl_step a c"
  by (auto simp: crawl_step_def intro: map_le_trans)

text \<open>A step that leaves the robots cache and the robots calls alone and only adds to the
  seen-set.\<close>

lemma crawl_step_frame:
  "blacklist st \<subseteq> blacklist st' \<Longrightarrow> registered_specs st' = registered_specs st
     \<Longrightarrow> robots_fetches (events st') = robots_fetches (events st) \<Longrightarrow> crawl_step st st'"
  by (simp add: crawl_step_def robots_inv_def)

lemma specs_for_crawl_step: "crawl_step st (snd (specs_for env opt u st))"
  by (auto simp: crawl_step_def robots_inv_def specs_for_def res_get_specs_def Let_def
      map_le_def split: option.splits prod.splits)

lemma download_child_crawl_step:
  "crawl_step st (snd (download_child env opt upos parent d start_url_parsed st))"
proof -
  let ?sp = "snd (specs_for env opt (upos_url upos) st)"
  have a: "crawl_step st ?sp" by (rule specs_for_crawl_step)
  have b: "crawl_step ?sp (?sp\<lparr>blacklist := blacklist_add env (blacklist st) (url (upos_url upos))\<rparr>)"
    by (rule crawl_step_frame) (auto simp: blacklist_add_def)
  have c: "crawl_step st (log_event (EV_visited_url x y) st)" for x y
    by (rule crawl_step_frame) auto
  show ?thesis
    using a crawl_step_trans [OF a b] c by (simp add: download_child_eq)
qed

lemma download_child_frameD:
  assumes "download_child env opt upos parent d start_url_parsed st = (r, st1)"
  shows "queue st1 = queue st" and "status st1 = status st"
    and "rejectedlog st1 = rejectedlog st"
    and "fetches (events st1) = fetches (events st)"
    and "html_parses (events st1) = html_parses (events st)"
    and "css_parses (events st1) = css_parses (events st)"
    and "crawl_step st st1"
  using download_child_frame [of env opt upos parent d start_url_parsed st]
    download_child_crawl_step [of st env opt upos parent d start_url_parsed] assms
  by simp_all

lemma walk_children_frame [simp]:
  "status (walk_children env opt s p d leaf ref cs st) = status st"
  "fetches (events (walk_children env opt s p d leaf ref cs st)) = fetches (events st)"
  "html_parses (events (walk_children env opt s p d leaf ref cs st)) = html_parses (events st)"
  "css_parses (events (walk_children env opt s p d leaf ref cs st)) = css_parses (events st)"
  by (induction env opt s p d leaf ref cs st rule: walk_children.induct;
      simp split: prod.splits; auto dest: download_child_frameD)+

lemma walk_children_crawl_step:
  "crawl_step st (walk_children env opt s p d leaf ref cs st)"
proof (induction env opt s p d leaf ref cs st rule: walk_children.induct)
  case (1 env opt s p d leaf ref st)
  then show ?case by simp
next
  case (2 env opt s p d leaf ref child rest st)
  obtain r st1 where dc: "download_child env opt child p d s st = (r, st1)"
    by (cases "download_child env opt child p d s st")
  have a: "crawl_step st st1"
    using dc by (rule download_child_frameD)
  have b: "crawl_step st1 (st1\<lparr>queue := q, blacklist := blacklist_add env (blacklist st1) x\<rparr>)"
    for q x
    by (rule crawl_step_frame) (auto simp: blacklist_add_def)
  have c: "crawl_step st1 (write_reject_log_reason r u p st1)" for u
    by (rule crawl_step_frame) auto
  show ?case
    using 2 dc
    by (auto intro: crawl_step_trans [OF a] crawl_step_trans [OF crawl_step_trans [OF a b]]
        crawl_step_trans [OF crawl_step_trans [OF a c]])
qed

lemma parse_and_enqueue_frame [simp]:
  "status (parse_and_enqueue env opt s qel f c leaf st) = status st"
  "fetches (events (parse_and_enqueue env opt s qel f c leaf st)) = fetches (events st)"
  "html_parses (events (parse_and_enqueue env opt s qel f c leaf st))
     = html_parses (events st) @ (if c then [] else [(f, qel_url qel)])"
  "css_parses (events (parse_and_enqueue env opt s qel f c leaf st))
     = css_parses (events st) @ (if c then [(f, qel_url qel)] else [])"
  by (simp_all add: parse_and_enqueue_def Let_def case_prod_beta)

lemma parse_and_enqueue_crawl_step:
  "crawl_step st (parse_and_enqueue env opt s qel f c leaf st)"
proof -
  let ?e = "if c then EV_get_urls_css_file f (qel_url qel) else EV_get_urls_html f (qel_url qel)"
  have a: "crawl_step st (log_event ?e st)"
    by (rule crawl_step_frame) auto
  show ?thesis
    unfolding parse_and_enqueue_def Let_def case_prod_beta
    by (rule crawl_step_trans [OF a walk_children_crawl_step])
qed

lemma cleanup_crawl_step: "crawl_step st (cleanup env opt fl st)"
  by (rule crawl_step_frame) auto

lemma descend_redirect_frameD:
  assumes "descend_redirect env opt redirected orig_parsed d start_url_parsed st = Inr (r, st1)"
  shows "queue st1 = queue st" and "status st1 = status st"
    and "rejectedlog st1 = rejectedlog st"
    and "fetches (events st1) = fetches (events st)"
    and "html_parses (events st1) = html_parses (events st)"
    and "css_parses (events st1) = css_parses (events st)"
    and "crawl_step st st1"
proof -
  from assms obtain new_parsed
    where p: "url_parse env redirected (ori_enc orig_parsed) = Some new_parsed"
    by (auto simp: descend_redirect_def split: option.splits)
  obtain reason st0
    where dc: "download_child env opt (redirect_upos new_parsed) orig_parsed d start_url_parsed st
       = (reason, st0)"
    by (cases "download_child env opt (redirect_upos new_parsed) orig_parsed d start_url_parsed st")
  note fr = download_child_frameD [OF dc]
  have st1: "st1 = st0 \<or> st1 = st0\<lparr>blacklist := blacklist_add env (blacklist st0) (url new_parsed)\<rparr>"
    using assms dc by (auto simp: descend_redirect_eq [OF p] split: if_splits)
  have b: "crawl_step st0 (st0\<lparr>blacklist := blacklist_add env (blacklist st0) x\<rparr>)" for x
    by (rule crawl_step_frame) (auto simp: blacklist_add_def)
  show "queue st1 = queue st" using st1 fr by auto
  show "status st1 = status st" using st1 fr by auto
  show "rejectedlog st1 = rejectedlog st" using st1 fr by auto
  show "fetches (events st1) = fetches (events st)" using st1 fr by auto
  show "html_parses (events st1) = html_parses (events st)" using st1 fr by auto
  show "css_parses (events st1) = css_parses (events st)" using st1 fr by auto
  show "crawl_step st st1" using st1 fr(7) b by (auto intro: crawl_step_trans)
qed

text \<open>The first part of the loop body, for a file that is reused and for a fetch.\<close>

lemma reuse_or_fetch_cached:
  assumes "cached_file env st qel = Some f"
  shows "reuse_or_fetch env opt start_url_parsed qel st =
     Inr ((Some f,
           (qel_css_allowed qel \<and> in_downloaded_css env st f)
           \<or> (qel_html_allowed qel \<and> in_downloaded_html env st f),
           qel_css_allowed qel \<and> in_downloaded_css env st f), st)"
  using assms
  by (auto simp: reuse_or_fetch_def cached_file_def in_downloaded_css_def
      in_downloaded_html_def Let_def)

lemma reuse_or_fetch_fresh:
  assumes "cached_file env st qel = None"
    and "retrieve_url env (qel_url qel) (qel_referer qel) (world st) = (res, w1)"
  shows "reuse_or_fetch env opt start_url_parsed qel st =
     (let st1 = fetched_state qel res w1 st;
          dsc = (fetch_html_cond qel res \<or> fetch_css_cond qel res);
          c = fetch_css_cond qel res
      in case rf_redirected res of
           None \<Rightarrow> Inr ((rf_file res, dsc, c), st1)
         | Some redirected \<Rightarrow>
             if dsc then
               (case descend_redirect env opt redirected (qel_url qel) (qel_depth qel)
                       start_url_parsed st1 of
                  Inl e \<Rightarrow> Inl (e, st1)
                | Inr (r, st2) \<Rightarrow>
                    if r = WG_RR_SUCCESS then
                      Inr ((rf_file res, True, c),
                           st2\<lparr>blacklist := blacklist_add env (blacklist st2) (url (qel_url qel))\<rparr>)
                    else
                      Inr ((rf_file res, False, c),
                           write_reject_log_reason r (qel_url qel) start_url_parsed st2))
             else Inr ((rf_file res, False, c), st1))"
  using assms
  by (auto simp: reuse_or_fetch_def cached_file_def fetched_state_def fetch_html_cond_def
      fetch_css_cond_def Let_def split: option.splits sum.splits)

lemma fetched_state_simps [simp]:
  "blacklist (fetched_state qel res w1 st) = blacklist st"
  "registered_specs (fetched_state qel res w1 st) = registered_specs st"
  "queue (fetched_state qel res w1 st) = queue st"
  "status (fetched_state qel res w1 st) = rf_status res"
  "rejectedlog (fetched_state qel res w1 st) = rejectedlog st"
  "events (fetched_state qel res w1 st) = events st @ [EV_retrieve_url (qel_url qel) (qel_referer qel)]"
  by (simp_all add: fetched_state_def)

lemma fetched_state_crawl_step: "crawl_step st (fetched_state qel res w1 st)"
  by (rule crawl_step_frame) auto

text \<open>
  What the first part of the loop body leaves behind, whether it ends normally or in the
  failed assertion: the queue and the extractor calls are untouched, and the fetcher has
  been called once, for the item, unless its file is reused.
\<close>

lemma reuse_or_fetch_frame:
  assumes "reuse_or_fetch env opt start_url_parsed qel st = Inr ((fl, dsc, c), st')
     \<or> reuse_or_fetch env opt start_url_parsed qel st = Inl (e, st')"
  shows "queue st' = queue st"
    and "html_parses (events st') = html_parses (events st)"
    and "css_parses (events st') = css_parses (events st)"
    and "fetches (events st')
       = fetches (events st) @ (if cached_file env st qel = None then [qel_url qel] else [])"
    and "crawl_step st st'"
proof -
  let ?P = "\<lambda>st'. queue st' = queue st
    \<and> html_parses (events st') = html_parses (events st)
    \<and> css_parses (events st') = css_parses (events st)
    \<and> fetches (events st')
       = fetches (events st) @ (if cached_file env st qel = None then [qel_url qel] else [])
    \<and> crawl_step st st'"
  have "?P st'"
  proof (cases "cached_file env st qel")
    case (Some f)
    then have cf: "cached_file env st qel = Some f" by simp
    from assms have "st' = st"
      unfolding reuse_or_fetch_cached [OF cf] by simp
    with cf show ?thesis by simp
  next
    case None
    obtain res w1 where r: "retrieve_url env (qel_url qel) (qel_referer qel) (world st) = (res, w1)"
      by (cases "retrieve_url env (qel_url qel) (qel_referer qel) (world st)")
    let ?st1 = "fetched_state qel res w1 st"
    have p1: "?P ?st1"
      using None by (simp add: fetched_state_crawl_step)
    have p2: "?P (st2\<lparr>blacklist := blacklist_add env (blacklist st2) x\<rparr>)"
      and p3: "?P (write_reject_log_reason rr u start_url_parsed st2)"
      if "descend_redirect env opt redirected (qel_url qel) (qel_depth qel) start_url_parsed ?st1
            = Inr (rr, st2)" for redirected rr st2 x u
    proof -
      note fr = descend_redirect_frameD [OF that]
      have a: "crawl_step st st2"
        using fetched_state_crawl_step fr(7) by (rule crawl_step_trans)
      have b: "crawl_step st2 (st2\<lparr>blacklist := blacklist_add env (blacklist st2) x\<rparr>)"
        by (rule crawl_step_frame) (auto simp: blacklist_add_def)
      have c: "crawl_step st2 (write_reject_log_reason rr u start_url_parsed st2)"
        by (rule crawl_step_frame) auto
      show "?P (st2\<lparr>blacklist := blacklist_add env (blacklist st2) x\<rparr>)"
        using fr p1 crawl_step_trans [OF a b] by simp
      show "?P (write_reject_log_reason rr u start_url_parsed st2)"
        using fr p1 crawl_step_trans [OF a c] by simp
    qed
    from assms show ?thesis
      unfolding reuse_or_fetch_fresh [OF None r] Let_def
      using p1 p2 p3
      by (auto split: option.splits if_splits sum.splits prod.splits)
  qed
  then show "queue st' = queue st"
    and "html_parses (events st') = html_parses (events st)"
    and "css_parses (events st') = css_parses (events st)"
    and "fetches (events st')
       = fetches (events st) @ (if cached_file env st qel = None then [qel_url qel] else [])"
    and "crawl_step st st'"
    by simp_all
qed

lemma reuse_or_fetch_descend_file:
  assumes "reuse_or_fetch env opt start_url_parsed qel st = Inr ((fl, True, c), st')"
  shows "fl \<noteq> None"
proof (cases "cached_file env st qel")
  case (Some f)
  then have cf: "cached_file env st qel = Some f" by simp
  from assms show ?thesis
    unfolding reuse_or_fetch_cached [OF cf] by auto
next
  case None
  obtain res w1 where r: "retrieve_url env (qel_url qel) (qel_referer qel) (world st) = (res, w1)"
    by (cases "retrieve_url env (qel_url qel) (qel_referer qel) (world st)")
  from assms show ?thesis
    unfolding reuse_or_fetch_fresh [OF None r] Let_def
    by (auto simp: fetch_html_cond_def fetch_css_cond_def
        split: option.splits if_splits sum.splits prod.splits)
qed

text \<open>One pass of the loop body.\<close>

lemma iteration_frame:
  assumes "iteration env opt start_url_parsed qel st = Inr st'
     \<or> iteration env opt start_url_parsed qel st = Inl (e, st')"
  shows "fetches (events st')
       = fetches (events st) @ (if cached_file env st qel = None then [qel_url qel] else [])"
    and "crawl_step st st'"
proof -
  let ?P = "\<lambda>st'. fetches (events st')
       = fetches (events st) @ (if cached_file env st qel = None then [qel_url qel] else [])
     \<and> crawl_step st st'"
  have "?P st'"
  proof (cases "reuse_or_fetch env opt start_url_parsed qel st")
    case (Inl a)
    obtain e1 st1 where a: "a = (e1, st1)" by (cases a)
    with Inl assms have "st' = st1"
      by (simp add: iteration_def)
    with Inl a reuse_or_fetch_frame [of env opt start_url_parsed qel st _ _ _ st1 e1]
    show ?thesis by simp
  next
    case (Inr b)
    obtain fl dsc c st1 where b: "b = ((fl, dsc, c), st1)" by (cases b) auto
    note fr = reuse_or_fetch_frame [of env opt start_url_parsed qel st fl dsc c st1 e]
    have p1: "?P st1"
      using Inr b fr by simp
    have v: "crawl_step st1 (log_event (EV_visited_url x y) st1)" for x y
      by (rule crawl_step_frame) auto
    have step: "?P st2 \<Longrightarrow> ?P (parse_and_enqueue env opt start_url_parsed qel f c leaf st2)"
      for st2 f leaf
      using parse_and_enqueue_crawl_step [of st2 env opt start_url_parsed qel f c leaf]
      by (auto intro: crawl_step_trans)
    have fin: "?P st2 \<Longrightarrow> ?P (cleanup env opt fl st2)" for st2
      using cleanup_crawl_step [of st2 env opt fl]
      by (auto intro: crawl_step_trans)
    have p2: "?P (log_event (EV_visited_url x y) st1)" for x y
      using p1 v [of x y] by (auto intro: crawl_step_trans)
    from assms Inr b have "st' = cleanup env opt fl
        (let st2 = (if spider opt
                      then log_event (EV_visited_url (url (qel_url qel)) (qel_referer qel)) st1
                      else st1)
         in case depth_gate opt (qel_depth qel) dsc of
           (descend, dash_p_leaf_HTML) \<Rightarrow>
             if descend then
               (case fl of
                  Some f \<Rightarrow> parse_and_enqueue env opt start_url_parsed qel f c dash_p_leaf_HTML st2
                | None \<Rightarrow> st2)
             else st2)"
      by (auto simp: iteration_def Let_def split: prod.splits)
    then show ?thesis
      using p1 p2 step fin
      by (auto simp: Let_def split: prod.splits option.splits)
  qed
  then show "fetches (events st')
       = fetches (events st) @ (if cached_file env st qel = None then [qel_url qel] else [])"
    and "crawl_step st st'"
    by simp_all
qed

text \<open>The loop, for every amount of fuel.\<close>

lemma while_loop_crawl_step:
  "crawl_step st (run_state (while_loop env opt start_url_parsed n st))"
proof (induction n arbitrary: st)
  case 0
  then show ?case by simp
next
  case (Suc n)
  have dq: "crawl_step st (st\<lparr>queue := q\<rparr>)" for q
    by (rule crawl_step_frame) auto
  show ?case
  proof (cases "quota_exceeded env opt st \<or> status st = FWRITEERR \<or> url_dequeue (queue st) = None")
    case True
    then show ?thesis by auto
  next
    case False
    then obtain qel q where d: "url_dequeue (queue st) = Some (qel, q)" by auto
    show ?thesis
    proof (cases "iteration env opt start_url_parsed qel (st\<lparr>queue := q\<rparr>)")
      case (Inl a)
      obtain e st1 where a: "a = (e, st1)" by (cases a)
      have "crawl_step (st\<lparr>queue := q\<rparr>) st1"
        using iteration_frame(2) [where st' = st1 and e = e] Inl a
        by blast
      with dq have "crawl_step st st1" by (rule crawl_step_trans)
      with False d Inl a show ?thesis by simp
    next
      case (Inr st1)
      have "crawl_step (st\<lparr>queue := q\<rparr>) st1"
        using iteration_frame(2) [where st' = st1] Inr
        by blast
      with dq have "crawl_step st st1" by (rule crawl_step_trans)
      then have "crawl_step st (run_state (while_loop env opt start_url_parsed n st1))"
        using Suc.IH by (rule crawl_step_trans)
      with False d Inr show ?thesis by simp
    qed
  qed
qed

lemma retrieve_tree_init_robots_inv:
  "robots_inv (retrieve_tree_init env opt start_url_parsed w specs)"
  by (simp add: retrieve_tree_init_def robots_inv_def Let_def split: option.splits prod.splits)

lemma specs_for_cached:
  "registered_specs st (host u, port u) = Some sp \<Longrightarrow> specs_for env opt u st = (sp, st)"
  by (simp add: specs_for_def res_get_specs_def)

lemma specs_for_miss:
  assumes "registered_specs st (host u, port u) = None"
  shows "robots_fetches (events (snd (specs_for env opt u st)))
       = robots_fetches (events st) @ [(host u, port u)]"
    and "registered_specs (snd (specs_for env opt u st)) (host u, port u)
       = Some (fst (specs_for env opt u st))"
    and "fst (specs_for env opt u st)
       = (case fst (res_retrieve_file env u (world st)) of
            Some rfile \<Rightarrow> res_parse_from_file env rfile (snd (res_retrieve_file env u (world st)))
          | None \<Rightarrow> res_parse_empty env)"
  using assms
  by (simp_all add: specs_for_def res_get_specs_def Let_def split: option.splits prod.splits)

lemma download_child_robots_fetches:
  "robots_fetches (events (snd (download_child env opt upos parent d start_url_parsed st)))
     = robots_fetches (events st)
           @ (if fst (download_child env opt upos parent d start_url_parsed st)
                   \<in> {WG_RR_SUCCESS, WG_RR_ROBOTS}
                 \<and> use_robots opt
                 \<and> schemes_are_similar_p env (scheme (upos_url upos)) SCHEME_HTTP
                 \<and> registered_specs st (host (upos_url upos), port (upos_url upos)) = None
              then [(host (upos_url upos), port (upos_url upos))] else [])"
proof (cases "registered_specs st (host (upos_url upos), port (upos_url upos))")
  case None
  then show ?thesis
    by (simp add: download_child_eq specs_for_miss rule_robots_def Let_def)
next
  case (Some sp)
  then show ?thesis
    by (simp add: download_child_eq specs_for_cached rule_robots_def Let_def)
qed

subsection \<open>Robots disallow and the seen-set\<close>

text \<open>
  Claim C5. When no earlier rule rejects, robots are in use, the child's scheme is like
  HTTP and the specs for its host and port (cached, or retrieved at this moment) do not
  match its path, \<open>download_child\<close> returns \<open>WG_RR_ROBOTS\<close> and leaves the child's decoded
  URL in the seen-set. From then on, in every state whose seen-set contains that set,
  \<open>download_child\<close> returns \<open>WG_RR_BLACKLIST\<close> for every child with the same decoded URL,
  whatever its other arguments. The seen-set only grows while the loop runs.
\<close>

theorem robots_disallow_blacklists:
  assumes "\<not> rule_blacklist env upos st" and "\<not> rule_https_only env opt upos"
    and "\<not> rule_scheme env opt upos" and "\<not> rule_relative_only env opt upos"
    and "\<not> rule_domain env upos" and "\<not> rule_no_parent env opt upos start_url_parsed"
    and "\<not> rule_directory_lists env opt upos" and "\<not> rule_regex env upos"
    and "\<not> rule_suffix env opt upos d" and "\<not> rule_span_host env opt upos parent"
    and "use_robots opt"
    and "schemes_are_similar_p env (scheme (upos_url upos)) SCHEME_HTTP"
    and "\<not> res_match_path env (fst (specs_for env opt (upos_url upos) st)) (path (upos_url upos))"
  shows "fst (download_child env opt upos parent d start_url_parsed st) = WG_RR_ROBOTS
    \<and> blacklist (snd (download_child env opt upos parent d start_url_parsed st))
        = insert (url_unescape env (url (upos_url upos))) (blacklist st)
    \<and> blacklist_contains env
         (blacklist (snd (download_child env opt upos parent d start_url_parsed st)))
         (url (upos_url upos))
    \<and> (\<forall>opt' upos' parent' d' start' st'.
          blacklist (snd (download_child env opt upos parent d start_url_parsed st))
            \<subseteq> blacklist st'
          \<and> url_unescape env (url (upos_url upos')) = url_unescape env (url (upos_url upos))
          \<longrightarrow> fst (download_child env opt' upos' parent' d' start' st') = WG_RR_BLACKLIST)
    \<and> (\<forall>opt' start' n st0.
          blacklist st0 \<subseteq> blacklist (run_state (while_loop env opt' start' n st0)))"
proof -
  have r: "rule_robots env opt upos st"
    using assms by (simp add: rule_robots_def Let_def)
  have dc: "download_child env opt upos parent d start_url_parsed st =
     (WG_RR_ROBOTS,
      (snd (specs_for env opt (upos_url upos) st))
        \<lparr>blacklist := blacklist_add env (blacklist st) (url (upos_url upos))\<rparr>)"
    using assms(1-10) r by (rule download_child_robots)
  have later: "fst (download_child env opt' upos' parent' d' start' st') = WG_RR_BLACKLIST"
    if "blacklist (snd (download_child env opt upos parent d start_url_parsed st)) \<subseteq> blacklist st'"
      and "url_unescape env (url (upos_url upos')) = url_unescape env (url (upos_url upos))"
    for opt' upos' parent' d' start' and st' :: "('a, 'b) state"
  proof -
    have "rule_blacklist env upos' st'"
      using that dc by (auto simp: rule_blacklist_def blacklist_contains_def blacklist_add_def)
    then show ?thesis by (simp add: download_child_blacklist)
  qed
  have grows: "blacklist st0 \<subseteq> blacklist (run_state (while_loop env opt' start' n st0))"
    for opt' start' n and st0 :: "('a, 'b) state"
    using while_loop_crawl_step [of st0 env opt' start' n] by (simp add: crawl_step_def)
  show ?thesis
    using dc later grows by (simp add: blacklist_add_def blacklist_contains_def)
qed

text \<open>
  Scenario S4: the cached specs of host \<^verbatim>\<open>h\<close> forbid \<^verbatim>\<open>private/\<close>. The link to
  \<^verbatim>\<open>private/p\<close> is rejected with \<open>WG_RR_ROBOTS\<close>, and the same link in the state this
  leaves is rejected with \<open>WG_RR_BLACKLIST\<close>.
\<close>

theorem robots_disallow_blacklists_witness:
  "fst (download_child ex_env (ex_opt\<lparr>use_robots := True\<rparr>)
          (ex_child (ex_url SCHEME_HTTP ''h'' 80 ''private'' ''p'')) ex_start 0 ex_start
          (ex_state\<lparr>registered_specs := [(''h'', 80) \<mapsto> [''private/'']]\<rparr>))
     = WG_RR_ROBOTS
   \<and> fst (download_child ex_env (ex_opt\<lparr>use_robots := True\<rparr>)
          (ex_child (ex_url SCHEME_HTTP ''h'' 80 ''private'' ''p'')) ex_start 0 ex_start
          (snd (download_child ex_env (ex_opt\<lparr>use_robots := True\<rparr>)
             (ex_child (ex_url SCHEME_HTTP ''h'' 80 ''private'' ''p'')) ex_start 0 ex_start
             (ex_state\<lparr>registered_specs := [(''h'', 80) \<mapsto> [''private/'']]\<rparr>))))
     = WG_RR_BLACKLIST"
proof -
  let ?opt = "ex_opt\<lparr>use_robots := True\<rparr>"
  let ?c = "ex_child (ex_url SCHEME_HTTP ''h'' 80 ''private'' ''p'')"
  let ?st = "ex_state\<lparr>registered_specs := [(''h'', 80) \<mapsto> [''private/'']]\<rparr>"
  have 1: "\<not> rule_blacklist ex_env ?c ?st" by code_simp
  have 2: "\<not> rule_https_only ex_env ?opt ?c" by code_simp
  have 3: "\<not> rule_scheme ex_env ?opt ?c" by code_simp
  have 4: "\<not> rule_relative_only ex_env ?opt ?c" by code_simp
  have 5: "\<not> rule_domain ex_env ?c" by code_simp
  have 6: "\<not> rule_no_parent ex_env ?opt ?c ex_start" by code_simp
  have 7: "\<not> rule_directory_lists ex_env ?opt ?c" by code_simp
  have 8: "\<not> rule_regex ex_env ?c" by code_simp
  have 9: "\<not> rule_suffix ex_env ?opt ?c 0" by code_simp
  have 10: "\<not> rule_span_host ex_env ?opt ?c ex_start" by code_simp
  have 11: "use_robots ?opt" by code_simp
  have 12: "schemes_are_similar_p ex_env (scheme (upos_url ?c)) SCHEME_HTTP" by code_simp
  have 13: "\<not> res_match_path ex_env (fst (specs_for ex_env ?opt (upos_url ?c) ?st))
              (path (upos_url ?c))"
    by code_simp
  show ?thesis
    using robots_disallow_blacklists [OF 1 2 3 4 5 6 7 8 9 10 11 12 13] by blast
qed

subsection \<open>The robots retrieve hook\<close>

text \<open>
  Claim C4. In every state a crawl reaches, after any number of passes of the loop and at
  its return, the robots retrieve hook has been called at most once for each host and port:
  the list of its calls has no duplicate. A check for a host and port with specs in the
  cache returns those specs and changes nothing. A check for a host and port without
  specs calls the hook once and registers what it returns: the parsed file, or the dummy specs
  when the retrieval failed. \<open>download_child\<close> calls the hook at most once, and only so. An
  entry of the cache stays as it is for the rest of the crawl.
\<close>

theorem robots_fetched_once:
  "distinct (robots_fetches (events (run_state
       (while_loop env opt start_url_parsed n
          (retrieve_tree_init env opt start_url_parsed w specs)))))
   \<and> (\<forall>r st'. retrieve_tree env opt start_url_parsed n w specs = Some (Inr (r, st'))
         \<longrightarrow> distinct (robots_fetches (events st')))
   \<and> (\<forall>u st sp. registered_specs st (host u, port u) = Some sp
         \<longrightarrow> specs_for env opt u st = (sp, st))
   \<and> (\<forall>u st. registered_specs st (host u, port u) = None
         \<longrightarrow> robots_fetches (events (snd (specs_for env opt u st)))
              = robots_fetches (events st) @ [(host u, port u)]
            \<and> registered_specs (snd (specs_for env opt u st)) (host u, port u)
              = Some (fst (specs_for env opt u st))
            \<and> fst (specs_for env opt u st)
              = (case fst (res_retrieve_file env u (world st)) of
                   Some rfile \<Rightarrow>
                     res_parse_from_file env rfile (snd (res_retrieve_file env u (world st)))
                 | None \<Rightarrow> res_parse_empty env))
   \<and> (\<forall>upos parent d st.
         robots_fetches (events (snd (download_child env opt upos parent d start_url_parsed st)))
           = robots_fetches (events st)
             @ (if fst (download_child env opt upos parent d start_url_parsed st)
                     \<in> {WG_RR_SUCCESS, WG_RR_ROBOTS}
                   \<and> use_robots opt
                   \<and> schemes_are_similar_p env (scheme (upos_url upos)) SCHEME_HTTP
                   \<and> registered_specs st (host (upos_url upos), port (upos_url upos)) = None
                then [(host (upos_url upos), port (upos_url upos))] else []))
   \<and> (\<forall>st hp sp. registered_specs st hp = Some sp
         \<longrightarrow> registered_specs (run_state (while_loop env opt start_url_parsed n st)) hp = Some sp)"
proof -
  let ?init = "retrieve_tree_init env opt start_url_parsed w specs"
  let ?fin = "run_state (while_loop env opt start_url_parsed n ?init)"
  have "crawl_step ?init ?fin"
    by (rule while_loop_crawl_step)
  then have inv: "robots_inv ?fin"
    using retrieve_tree_init_robots_inv [of env opt start_url_parsed w specs]
    by (simp add: crawl_step_def)
  then have 1: "distinct (robots_fetches (events ?fin))"
    by (simp add: robots_inv_def)
  have 2: "distinct (robots_fetches (events st'))"
    if "retrieve_tree env opt start_url_parsed n w specs = Some (Inr (r, st'))" for r st'
  proof -
    from that obtain st where "while_loop env opt start_url_parsed n ?init = Finished st"
      and "retrieve_tree_exit env opt st = (r, st')"
      by (auto simp: retrieve_tree_def split: run.splits)
    with 1 show ?thesis
      by (auto simp: retrieve_tree_exit_def Let_def split: if_splits)
  qed
  have 6: "registered_specs (run_state (while_loop env opt start_url_parsed n st)) hp = Some sp"
    if "registered_specs st hp = Some sp" for st :: "('a, 'b) state" and hp sp
  proof -
    have "registered_specs st \<subseteq>\<^sub>m
        registered_specs (run_state (while_loop env opt start_url_parsed n st))"
      using while_loop_crawl_step [of st env opt start_url_parsed n]
      by (simp add: crawl_step_def)
    with that show ?thesis
      by (metis domI map_le_def)
  qed
  have r2: "\<forall>r st'. retrieve_tree env opt start_url_parsed n w specs = Some (Inr (r, st'))
         \<longrightarrow> distinct (robots_fetches (events st'))"
    using 2 by blast
  have 3: "\<forall>u (st :: ('a, 'b) state) sp. registered_specs st (host u, port u) = Some sp
         \<longrightarrow> specs_for env opt u st = (sp, st)"
    by (simp add: specs_for_cached)
  have 4: "\<forall>u (st :: ('a, 'b) state). registered_specs st (host u, port u) = None
         \<longrightarrow> robots_fetches (events (snd (specs_for env opt u st)))
              = robots_fetches (events st) @ [(host u, port u)]
            \<and> registered_specs (snd (specs_for env opt u st)) (host u, port u)
              = Some (fst (specs_for env opt u st))
            \<and> fst (specs_for env opt u st)
              = (case fst (res_retrieve_file env u (world st)) of
                   Some rfile \<Rightarrow>
                     res_parse_from_file env rfile (snd (res_retrieve_file env u (world st)))
                 | None \<Rightarrow> res_parse_empty env)"
    by (intro allI impI conjI) (rule specs_for_miss, assumption)+
  have 5: "\<forall>upos parent d st.
         robots_fetches (events (snd (download_child env opt upos parent d start_url_parsed st)))
           = robots_fetches (events st)
             @ (if fst (download_child env opt upos parent d start_url_parsed st)
                     \<in> {WG_RR_SUCCESS, WG_RR_ROBOTS}
                   \<and> use_robots opt
                   \<and> schemes_are_similar_p env (scheme (upos_url upos)) SCHEME_HTTP
                   \<and> registered_specs st (host (upos_url upos), port (upos_url upos)) = None
                then [(host (upos_url upos), port (upos_url upos))] else [])"
    by (intro allI) (rule download_child_robots_fetches)
  have r6: "\<forall>(st :: ('a, 'b) state) hp sp. registered_specs st hp = Some sp
         \<longrightarrow> registered_specs (run_state (while_loop env opt start_url_parsed n st)) hp = Some sp"
    using 6 by blast
  from 1 r2 3 4 5 r6 show ?thesis
    by (intro conjI)
qed

text \<open>
  A crawl with robots checks on, from a start page with two links to its own host, where
  the robots file cannot be retrieved: the hook is called once, for the first link.
\<close>

theorem robots_fetched_once_witness:
  "distinct (robots_fetches (events (run_state
       (while_loop (ex_env\<lparr>get_urls_html := ex_site\<rparr>) (ex_opt\<lparr>use_robots := True\<rparr>) ex_start 4
          (retrieve_tree_init (ex_env\<lparr>get_urls_html := ex_site\<rparr>)
             (ex_opt\<lparr>use_robots := True\<rparr>) ex_start 0 (\<lambda>hp. None))))))
   \<and> robots_fetches (events (run_state
       (while_loop (ex_env\<lparr>get_urls_html := ex_site\<rparr>) (ex_opt\<lparr>use_robots := True\<rparr>) ex_start 4
          (retrieve_tree_init (ex_env\<lparr>get_urls_html := ex_site\<rparr>)
             (ex_opt\<lparr>use_robots := True\<rparr>) ex_start 0 (\<lambda>hp. None)))))
     = [(''h'', 80)]
   \<and> map url (fetches (events (run_state
       (while_loop (ex_env\<lparr>get_urls_html := ex_site\<rparr>) (ex_opt\<lparr>use_robots := True\<rparr>) ex_start 4
          (retrieve_tree_init (ex_env\<lparr>get_urls_html := ex_site\<rparr>)
             (ex_opt\<lparr>use_robots := True\<rparr>) ex_start 0 (\<lambda>hp. None))))))
     = [''http://h/a/index.html'', ''http://h/a/b.html'', ''http://h/a/c.html'']"
proof -
  let ?env = "ex_env\<lparr>get_urls_html := ex_site\<rparr>"
  let ?opt = "ex_opt\<lparr>use_robots := True\<rparr>"
  let ?fin = "run_state (while_loop ?env ?opt ex_start 4
     (retrieve_tree_init ?env ?opt ex_start 0 (\<lambda>hp. None)))"
  have a: "distinct (robots_fetches (events ?fin))"
    using robots_fetched_once [of ?env ?opt ex_start 4 0 "\<lambda>hp. None"] by (rule conjunct1)
  have b: "robots_fetches (events ?fin) = [(''h'', 80)]"
    by code_simp
  have c: "map url (fetches (events ?fin))
     = [''http://h/a/index.html'', ''http://h/a/b.html'', ''http://h/a/c.html'']"
    by code_simp
  from a b c show ?thesis by (intro conjI)
qed

lemma drain_elems: "elems (drain q) = []"
proof (induction q rule: drain.induct)
  case (1 q)
  show ?case
  proof (cases "url_dequeue q")
    case None
    then show ?thesis
      by (simp add: url_dequeue_def split: list.splits)
  next
    case (Some a)
    then show ?thesis
      using 1 by (cases a) simp
  qed
qed

declare drain.simps [simp del]

declare drain_elems [simp]

lemma quota_exceeded_frame [simp]:
  "quota_exceeded env opt (st\<lparr>queue := q\<rparr>) = quota_exceeded env opt st"
  "quota_exceeded env opt (st\<lparr>rejectedlog := l\<rparr>) = quota_exceeded env opt st"
  by (simp_all add: quota_exceeded_def)

text \<open>The loop is left only through one of its three breaks.\<close>

lemma while_loop_Finished:
  "while_loop env opt start_url_parsed n st = Finished st'
     \<Longrightarrow> quota_exceeded env opt st' \<or> status st' = FWRITEERR \<or> elems (queue st') = []"
proof (induction n arbitrary: st)
  case 0
  then show ?case by simp
next
  case (Suc n)
  then show ?case
    by (auto simp: url_dequeue_def split: if_splits option.splits list.splits sum.splits
        prod.splits)
qed

subsection \<open>The value that \<open>retrieve_tree\<close> returns\<close>

text \<open>
  Claim C6. A loop that finds the quota exceeded or the status \<open>FWRITEERR\<close> at its head
  is left at once, in the same state: nothing is dequeued. When the loop is left,
  \<open>retrieve_tree\<close> returns \<open>QUOTEXC\<close> if the quota is exceeded, else \<open>FWRITEERR\<close> if the
  status is the fatal write error, else \<open>RETROK\<close>, and in the last case the loop was left
  because the queue was empty. Whatever \<open>retrieve_tree\<close> returns is this function of the
  final state, and the queue is drained.
\<close>

theorem retrieve_tree_result:
  "(quota_exceeded env opt st \<or> status st = FWRITEERR
      \<longrightarrow> while_loop env opt start_url_parsed (Suc n) st = Finished st)
   \<and> (\<forall>st'. while_loop env opt start_url_parsed fuel
               (retrieve_tree_init env opt start_url_parsed w specs) = Finished st'
        \<longrightarrow> retrieve_tree env opt start_url_parsed fuel w specs
             = Some (Inr (if quota_exceeded env opt st' then QUOTEXC
                          else if status st' = FWRITEERR then FWRITEERR
                          else RETROK,
                          st'\<lparr>rejectedlog := None, queue := drain (queue st')\<rparr>))
          \<and> (\<not> quota_exceeded env opt st' \<and> status st' \<noteq> FWRITEERR
               \<longrightarrow> elems (queue st') = []))
   \<and> (\<forall>r st''. retrieve_tree env opt start_url_parsed fuel w specs = Some (Inr (r, st''))
        \<longrightarrow> r = (if quota_exceeded env opt st'' then QUOTEXC
                 else if status st'' = FWRITEERR then FWRITEERR
                 else RETROK)
          \<and> elems (queue st'') = [])"
proof -
  have 1: "quota_exceeded env opt st \<or> status st = FWRITEERR
      \<longrightarrow> while_loop env opt start_url_parsed (Suc n) st = Finished st"
    by auto
  have 2: "retrieve_tree env opt start_url_parsed fuel w specs
             = Some (Inr (if quota_exceeded env opt st' then QUOTEXC
                          else if status st' = FWRITEERR then FWRITEERR
                          else RETROK,
                          st'\<lparr>rejectedlog := None, queue := drain (queue st')\<rparr>))
          \<and> (\<not> quota_exceeded env opt st' \<and> status st' \<noteq> FWRITEERR
               \<longrightarrow> elems (queue st') = [])"
    if "while_loop env opt start_url_parsed fuel
               (retrieve_tree_init env opt start_url_parsed w specs) = Finished st'" for st'
    using that while_loop_Finished [OF that]
    by (auto simp: retrieve_tree_def retrieve_tree_exit_def Let_def)
  have 3: "r = (if quota_exceeded env opt st'' then QUOTEXC
                 else if status st'' = FWRITEERR then FWRITEERR
                 else RETROK)
          \<and> elems (queue st'') = []"
    if "retrieve_tree env opt start_url_parsed fuel w specs = Some (Inr (r, st''))" for r st''
    using that
    by (auto simp: retrieve_tree_def retrieve_tree_exit_def Let_def
        split: run.splits if_splits)
  from 1 2 3 show ?thesis by blast
qed

text \<open>
  A loop that starts with 1500 bytes downloaded under a quota of 1000 leaves its queued item
  alone. Scenario S6: with a quota of 1000 bytes and 750 bytes per fetch, the crawl of the
  example site stops after the second fetch and returns \<open>QUOTEXC\<close>. With a fetcher that
  reports \<open>FWRITEERR\<close>, the crawl stops after the first fetch and returns \<open>FWRITEERR\<close>.
\<close>

theorem retrieve_tree_result_witness:
  "while_loop ex_env (ex_opt\<lparr>quota := 1000\<rparr>) ex_start (Suc 0)
       (ex_state\<lparr>world := 1500, queue := url_enqueue url_queue_new ex_start None 0 True False\<rparr>)
     = Finished
         (ex_state\<lparr>world := 1500, queue := url_enqueue url_queue_new ex_start None 0 True False\<rparr>)
   \<and> length (elems (queue
         (ex_state\<lparr>world := 1500, queue := url_enqueue url_queue_new ex_start None 0 True False\<rparr>)))
       = 1
   \<and> fst (projr (the (retrieve_tree (ex_env\<lparr>get_urls_html := ex_site\<rparr>)
         (ex_opt\<lparr>quota := 1000\<rparr>) ex_start 3 0 (\<lambda>hp. None)))) = QUOTEXC
   \<and> map url (fetches (events (snd (projr (the (retrieve_tree (ex_env\<lparr>get_urls_html := ex_site\<rparr>)
         (ex_opt\<lparr>quota := 1000\<rparr>) ex_start 3 0 (\<lambda>hp. None)))))))
       = [''http://h/a/index.html'', ''http://h/a/b.html'']
   \<and> fst (projr (the (retrieve_tree
         (ex_env\<lparr>get_urls_html := ex_site,
                 retrieve_url := (\<lambda>u r w.
                   (\<lparr>rf_status = FWRITEERR, rf_file = None, rf_redirected = None, rf_dt = {}\<rparr>,
                    w))\<rparr>)
         ex_opt ex_start 2 0 (\<lambda>hp. None)))) = FWRITEERR
   \<and> fst (projr (the (retrieve_tree (ex_env\<lparr>get_urls_html := ex_site\<rparr>)
         ex_opt ex_start 4 0 (\<lambda>hp. None)))) = RETROK"
proof -
  let ?opt = "ex_opt\<lparr>quota := 1000\<rparr>"
  let ?st = "ex_state\<lparr>world := 1500,
     queue := url_enqueue url_queue_new ex_start None 0 True False\<rparr>"
  have q: "quota_exceeded ex_env ?opt ?st"
    by code_simp
  have a: "while_loop ex_env ?opt ex_start (Suc 0) ?st = Finished ?st"
    using retrieve_tree_result [of ex_env ?opt ?st ex_start 0] q by blast
  have b: "length (elems (queue ?st)) = 1"
    by code_simp
  have c: "fst (projr (the (retrieve_tree (ex_env\<lparr>get_urls_html := ex_site\<rparr>)
         ?opt ex_start 3 0 (\<lambda>hp. None)))) = QUOTEXC"
    by code_simp
  have d: "map url (fetches (events (snd (projr (the (retrieve_tree
         (ex_env\<lparr>get_urls_html := ex_site\<rparr>) ?opt ex_start 3 0 (\<lambda>hp. None)))))))
       = [''http://h/a/index.html'', ''http://h/a/b.html'']"
    by code_simp
  have e: "fst (projr (the (retrieve_tree
         (ex_env\<lparr>get_urls_html := ex_site,
                 retrieve_url := (\<lambda>u r w.
                   (\<lparr>rf_status = FWRITEERR, rf_file = None, rf_redirected = None, rf_dt = {}\<rparr>,
                    w))\<rparr>)
         ex_opt ex_start 2 0 (\<lambda>hp. None)))) = FWRITEERR"
    by code_simp
  have f: "fst (projr (the (retrieve_tree (ex_env\<lparr>get_urls_html := ex_site\<rparr>)
         ex_opt ex_start 4 0 (\<lambda>hp. None)))) = RETROK"
    by code_simp
  from a b c d e f show ?thesis by (intro conjI)
qed

lemma depth_gate_seed_only:
  "reclevel opt = 0 \<Longrightarrow> \<not> page_requisites opt \<Longrightarrow> 0 \<le> d
     \<Longrightarrow> depth_gate opt d descend = (False, False)"
  by (simp add: depth_gate_def INFINITE_RECURSION_def)

text \<open>A pass of the loop body in which the depth gate (or the redirect arbiter) has cleared
  \<^verbatim>\<open>descend\<close> calls no extractor and leaves the queue alone.\<close>

lemma iteration_no_descent:
  assumes "reuse_or_fetch env opt start_url_parsed qel st = Inr ((fl, dsc, c), st1)"
    and "fst (depth_gate opt (qel_depth qel) dsc) = False"
  shows "\<exists>st'. iteration env opt start_url_parsed qel st = Inr st'
      \<and> queue st' = queue st
      \<and> html_parses (events st') = html_parses (events st)
      \<and> css_parses (events st') = css_parses (events st)"
proof -
  note fr = reuse_or_fetch_frame [OF disjI1 [OF assms(1)]]
  obtain a b where g: "depth_gate opt (qel_depth qel) dsc = (a, b)"
    by (cases "depth_gate opt (qel_depth qel) dsc")
  with assms(2) have "a = False" by simp
  with assms(1) g fr show ?thesis
    by (simp add: iteration_def Let_def)
qed

lemma iteration_aborted:
  assumes "iteration env opt start_url_parsed qel st = Inl (e, st')"
  shows "queue st' = queue st"
    and "html_parses (events st') = html_parses (events st)"
    and "css_parses (events st') = css_parses (events st)"
proof -
  from assms have "reuse_or_fetch env opt start_url_parsed qel st = Inl (e, st')"
    by (auto simp: iteration_def Let_def split: sum.splits prod.splits)
  then have "reuse_or_fetch env opt start_url_parsed qel st = Inr ((None, False, False), st')
     \<or> reuse_or_fetch env opt start_url_parsed qel st = Inl (e, st')"
    by simp
  note fr = reuse_or_fetch_frame [OF this]
  show "queue st' = queue st" by (rule fr)
  show "html_parses (events st') = html_parses (events st)" by (rule fr)
  show "css_parses (events st') = css_parses (events st)" by (rule fr)
qed

subsection \<open>A crawl with \<open>reclevel = 0\<close>\<close>

text \<open>
  Claim C9. With \<open>reclevel = 0\<close> and page-requisites off: the loop starts with the seed
  alone in the queue, at depth 0; the depth gate clears \<^verbatim>\<open>descend\<close> at every depth from 0
  on; no pass of the loop body for an item of such a depth enqueues anything or calls an
  extractor; and with fuel for two passes the loop has ended, in a state where the fetcher
  has been called for nothing but the seed (and for nothing at all when the seed's file is
  reused or the quota was exceeded before the start), no extractor has been called, and the
  queue has never held more than one item. So \<open>retrieve_tree\<close> returns.
\<close>

theorem seed_only:
  assumes "reclevel opt = 0" and "\<not> page_requisites opt"
  shows "url_dequeue (queue (retrieve_tree_init env opt start_url_parsed w specs))
       = Some (\<lparr>qel_url = start_url_parsed, qel_referer = None, qel_depth = 0,
                 qel_html_allowed = True, qel_css_allowed = False\<rparr>,
               \<lparr>elems = [], count = 0, maxcount = 1\<rparr>)
    \<and> (\<forall>d descend. 0 \<le> d \<longrightarrow> depth_gate opt d descend = (False, False))
    \<and> (\<forall>qel st st'. 0 \<le> qel_depth qel \<and> iteration env opt start_url_parsed qel st = Inr st'
          \<longrightarrow> queue st' = queue st
            \<and> html_parses (events st') = html_parses (events st)
            \<and> css_parses (events st') = css_parses (events st))
    \<and> (\<exists>st. (while_loop env opt start_url_parsed (Suc (Suc n))
                 (retrieve_tree_init env opt start_url_parsed w specs) = Finished st
               \<or> while_loop env opt start_url_parsed (Suc (Suc n))
                 (retrieve_tree_init env opt start_url_parsed w specs) = Aborted st)
          \<and> (fetches (events st) = [] \<or> fetches (events st) = [start_url_parsed])
          \<and> html_parses (events st) = [] \<and> css_parses (events st) = []
          \<and> maxcount (queue st) = 1
          \<and> (elems (queue st) = []
              \<or> st = retrieve_tree_init env opt start_url_parsed w specs))
    \<and> retrieve_tree env opt start_url_parsed (Suc (Suc n)) w specs \<noteq> None"
proof -
  let ?init = "retrieve_tree_init env opt start_url_parsed w specs"
  let ?seed = "\<lparr>qel_url = start_url_parsed, qel_referer = None, qel_depth = 0,
                 qel_html_allowed = True, qel_css_allowed = False\<rparr>"
  let ?q0 = "\<lparr>elems = [], count = 0, maxcount = 1\<rparr>"
  let ?run = "while_loop env opt start_url_parsed (Suc (Suc n)) ?init"
  have init: "queue ?init = \<lparr>elems = [?seed], count = 1, maxcount = 1\<rparr>"
    "events ?init = []" "status ?init = RETROK"
    by (simp_all add: retrieve_tree_init_def url_enqueue_def url_queue_new_def Let_def
        split: option.splits prod.splits)
  have dq: "url_dequeue (queue ?init) = Some (?seed, ?q0)"
    by (simp add: init url_dequeue_def)
  have gate: "depth_gate opt d descend = (False, False)" if "0 \<le> d" for d descend
    using assms that by (rule depth_gate_seed_only)
  have it: "queue st' = queue st
            \<and> html_parses (events st') = html_parses (events st)
            \<and> css_parses (events st') = css_parses (events st)"
    if "0 \<le> qel_depth qel" and "iteration env opt start_url_parsed qel st = Inr st'"
    for qel and st st' :: "('a, 'b) state"
  proof -
    from that(2) obtain fl dsc c st1
      where r: "reuse_or_fetch env opt start_url_parsed qel st = Inr ((fl, dsc, c), st1)"
      by (auto simp: iteration_def split: sum.splits)
    have "fst (depth_gate opt (qel_depth qel) dsc) = False"
      using gate [OF that(1)] by simp
    from iteration_no_descent [OF r this] that(2) show ?thesis by auto
  qed
  let ?P = "\<lambda>st. (fetches (events st) = [] \<or> fetches (events st) = [start_url_parsed])
          \<and> html_parses (events st) = [] \<and> css_parses (events st) = []
          \<and> maxcount (queue st) = 1
          \<and> (elems (queue st) = [] \<or> st = ?init)"
  have run: "\<exists>st. (?run = Finished st \<or> ?run = Aborted st) \<and> ?P st"
  proof (cases "quota_exceeded env opt ?init")
    case True
    then have "?run = Finished ?init" by simp
    then show ?thesis by (auto simp: init)
  next
    case False
    let ?st0 = "?init\<lparr>queue := ?q0\<rparr>"
    have f0: "fetches (events ?st0) = []" "html_parses (events ?st0) = []"
      "css_parses (events ?st0) = []" "queue ?st0 = ?q0"
      by (simp_all add: init)
    show ?thesis
    proof (cases "iteration env opt start_url_parsed ?seed ?st0")
      case (Inl a)
      obtain e st1 where a: "a = (e, st1)" by (cases a)
      have run1: "?run = Aborted st1"
        using False dq Inl a by (simp add: init)
      have "queue st1 = ?q0" "html_parses (events st1) = []" "css_parses (events st1) = []"
        using iteration_aborted [of env opt start_url_parsed ?seed ?st0 e st1] Inl a f0
        by simp_all
      moreover have "fetches (events st1) = [] \<or> fetches (events st1) = [start_url_parsed]"
        using iteration_frame(1) [where st' = st1 and e = e and st = ?st0 and qel = ?seed
            and env = env and opt = opt and start_url_parsed = start_url_parsed] Inl a f0
        by (auto split: if_splits)
      ultimately show ?thesis using run1 by auto
    next
      case (Inr st1)
      have "queue st1 = queue ?st0 \<and> html_parses (events st1) = html_parses (events ?st0)
          \<and> css_parses (events st1) = css_parses (events ?st0)"
        using it [of ?seed ?st0 st1] Inr by simp
      then have q1: "queue st1 = ?q0" "html_parses (events st1) = []"
        "css_parses (events st1) = []"
        using f0 by simp_all
      have f1: "fetches (events st1) = [] \<or> fetches (events st1) = [start_url_parsed]"
        using iteration_frame(1) [where st' = st1 and st = ?st0 and qel = ?seed
            and env = env and opt = opt and start_url_parsed = start_url_parsed] Inr f0
        by (auto split: if_splits)
      have "while_loop env opt start_url_parsed (Suc n) st1 = Finished st1"
        using q1 by (simp add: url_dequeue_def)
      then have "?run = Finished st1"
        using False dq Inr by (simp add: init)
      with q1 f1 show ?thesis by auto
    qed
  qed
  then have ret: "retrieve_tree env opt start_url_parsed (Suc (Suc n)) w specs \<noteq> None"
    by (auto simp: retrieve_tree_def simp del: while_loop.simps)
  from dq gate it run ret show ?thesis
    by (intro conjI allI impI) blast+
qed

text \<open>
  Scenario S1: the start page of the example site has two links, \<open>reclevel\<close> is 0. The
  crawl returns \<open>RETROK\<close> after one fetch, that of the seed.
\<close>

theorem seed_only_witness:
  "retrieve_tree (ex_env\<lparr>get_urls_html := ex_site\<rparr>) (ex_opt\<lparr>reclevel := 0\<rparr>) ex_start
       (Suc (Suc 0)) 0 (\<lambda>hp. None) \<noteq> None
   \<and> fst (projr (the (retrieve_tree (ex_env\<lparr>get_urls_html := ex_site\<rparr>)
         (ex_opt\<lparr>reclevel := 0\<rparr>) ex_start (Suc (Suc 0)) 0 (\<lambda>hp. None)))) = RETROK
   \<and> map url (fetches (events (snd (projr (the (retrieve_tree (ex_env\<lparr>get_urls_html := ex_site\<rparr>)
         (ex_opt\<lparr>reclevel := 0\<rparr>) ex_start (Suc (Suc 0)) 0 (\<lambda>hp. None)))))))
       = [''http://h/a/index.html'']"
proof -
  let ?env = "ex_env\<lparr>get_urls_html := ex_site\<rparr>"
  let ?opt = "ex_opt\<lparr>reclevel := 0\<rparr>"
  have 1: "reclevel ?opt = 0" by simp
  have 2: "\<not> page_requisites ?opt" by (simp add: ex_opt_def)
  have a: "retrieve_tree ?env ?opt ex_start (Suc (Suc 0)) 0 (\<lambda>hp. None) \<noteq> None"
    using seed_only [OF 1 2, of ?env ex_start 0 "\<lambda>hp. None" 0] by blast
  have b: "fst (projr (the (retrieve_tree ?env ?opt ex_start (Suc (Suc 0)) 0 (\<lambda>hp. None))))
       = RETROK"
    by code_simp
  have c: "map url (fetches (events (snd (projr (the (retrieve_tree ?env ?opt ex_start
         (Suc (Suc 0)) 0 (\<lambda>hp. None))))))) = [''http://h/a/index.html'']"
    by code_simp
  from a b c show ?thesis by (intro conjI)
qed

text \<open>The extractor calls of a pass of the loop body that ends normally.\<close>

lemma iteration_parses:
  assumes "reuse_or_fetch env opt start_url_parsed qel st = Inr ((fl, dsc, c), st1)"
  shows "\<exists>st'. iteration env opt start_url_parsed qel st = Inr st'
      \<and> html_parses (events st')
          = html_parses (events st)
            @ (case fl of
                 Some f \<Rightarrow> if fst (depth_gate opt (qel_depth qel) dsc) \<and> \<not> c
                            then [(f, qel_url qel)] else []
               | None \<Rightarrow> [])
      \<and> css_parses (events st')
          = css_parses (events st)
            @ (case fl of
                 Some f \<Rightarrow> if fst (depth_gate opt (qel_depth qel) dsc) \<and> c
                            then [(f, qel_url qel)] else []
               | None \<Rightarrow> [])"
proof -
  note fr = reuse_or_fetch_frame [OF disjI1 [OF assms]]
  obtain a b where g: "depth_gate opt (qel_depth qel) dsc = (a, b)"
    by (cases "depth_gate opt (qel_depth qel) dsc")
  with assms fr show ?thesis
    by (cases fl) (simp_all add: iteration_def Let_def)
qed

lemma depth_gate_True:
  "fst (depth_gate opt d True)
     \<longleftrightarrow> d < reclevel opt \<or> reclevel opt = INFINITE_RECURSION
         \<or> (page_requisites opt \<and> (d = reclevel opt \<or> d = reclevel opt + 1))"
  by (auto simp: depth_gate_def)

subsection \<open>CSS before HTML\<close>

text \<open>
  Claim C10, amended. An item whose reused file is in the downloaded-CSS set, with
  \<open>css_allowed\<close>, is marked for the CSS extractor, also when the file is in the
  downloaded-HTML set with \<open>html_allowed\<close>. An item whose fetch succeeded with a CSS content
  type or with \<open>css_allowed\<close> is marked for the CSS extractor, whatever the content type says
  about HTML and whatever \<open>html_allowed\<close> is. A pass of the loop body for an item so marked
  never calls the HTML extractor. It calls the CSS extractor, once and on the item's file,
  exactly when descent is left standing: the depth gate allows it at the item's depth
  (the depth is below \<open>reclevel\<close>, or recursion is infinite, or page-requisites is on and
  the depth is \<open>reclevel\<close> or \<open>reclevel + 1\<close>) and, for a fetch that was redirected, the
  redirect arbiter returned \<open>WG_RR_SUCCESS\<close>; otherwise it calls no extractor. A redirect
  target that does not parse stops the program in the assertion of \<open>descend_redirect\<close>.
  The claim gives the CSS condition of a reused file as \<open>css_allowed\<close> or membership in
  the downloaded-CSS set, where the code asks for both, and it has every such item parsed,
  where the code parses only the items that the depth gate and the redirect check let through.
\<close>

theorem css_extractor_preferred:
  "(\<forall>f. cached_file env st qel = Some f
        \<and> qel_css_allowed qel \<and> in_downloaded_css env st f
      \<longrightarrow> reuse_or_fetch env opt start_url_parsed qel st = Inr ((Some f, True, True), st)
          \<and> (\<exists>st'. iteration env opt start_url_parsed qel st = Inr st'
                \<and> html_parses (events st') = html_parses (events st)
                \<and> css_parses (events st')
                    = css_parses (events st)
                      @ (if fst (depth_gate opt (qel_depth qel) True)
                         then [(f, qel_url qel)] else [])))
   \<and> (\<forall>res w1 f. cached_file env st qel = None
        \<and> retrieve_url env (qel_url qel) (qel_referer qel) (world st) = (res, w1)
        \<and> rf_file res = Some f \<and> rf_status res = RETROK \<and> RETROKF \<in> rf_dt res
        \<and> (TEXTCSS \<in> rf_dt res \<or> qel_css_allowed qel)
      \<longrightarrow> (\<forall>fl dsc c st1.
             reuse_or_fetch env opt start_url_parsed qel st = Inr ((fl, dsc, c), st1)
             \<longrightarrow> c \<and> fl = Some f)
          \<and> (rf_redirected res = None
               \<longrightarrow> reuse_or_fetch env opt start_url_parsed qel st
                    = Inr ((Some f, True, True), fetched_state qel res w1 st)
                 \<and> (\<exists>st'. iteration env opt start_url_parsed qel st = Inr st'
                       \<and> html_parses (events st') = html_parses (events st)
                       \<and> css_parses (events st')
                           = css_parses (events st)
                             @ (if fst (depth_gate opt (qel_depth qel) True)
                                then [(f, qel_url qel)] else [])))
          \<and> (\<forall>redirected r st2.
                rf_redirected res = Some redirected
                \<and> descend_redirect env opt redirected (qel_url qel) (qel_depth qel)
                      start_url_parsed (fetched_state qel res w1 st) = Inr (r, st2)
              \<longrightarrow> (\<exists>st'. iteration env opt start_url_parsed qel st = Inr st'
                    \<and> html_parses (events st') = html_parses (events st)
                    \<and> css_parses (events st')
                        = css_parses (events st)
                          @ (if r = WG_RR_SUCCESS \<and> fst (depth_gate opt (qel_depth qel) True)
                             then [(f, qel_url qel)] else [])))
          \<and> (\<forall>redirected e.
                rf_redirected res = Some redirected
                \<and> descend_redirect env opt redirected (qel_url qel) (qel_depth qel)
                      start_url_parsed (fetched_state qel res w1 st) = Inl e
              \<longrightarrow> iteration env opt start_url_parsed qel st
                  = Inl (e, fetched_state qel res w1 st)))
   \<and> (\<forall>fl dsc st1.
        reuse_or_fetch env opt start_url_parsed qel st = Inr ((fl, dsc, True), st1)
      \<longrightarrow> (\<exists>st'. iteration env opt start_url_parsed qel st = Inr st'
            \<and> html_parses (events st') = html_parses (events st)
            \<and> css_parses (events st')
                = css_parses (events st)
                  @ (case fl of
                       Some f \<Rightarrow> if fst (depth_gate opt (qel_depth qel) dsc)
                                  then [(f, qel_url qel)] else []
                     | None \<Rightarrow> [])))
   \<and> (\<forall>d. fst (depth_gate opt d True)
          \<longleftrightarrow> d < reclevel opt \<or> reclevel opt = INFINITE_RECURSION
              \<or> (page_requisites opt \<and> (d = reclevel opt \<or> d = reclevel opt + 1)))"
proof -
  have 3: "\<exists>st'. iteration env opt start_url_parsed qel st = Inr st'
            \<and> html_parses (events st') = html_parses (events st)
            \<and> css_parses (events st')
                = css_parses (events st)
                  @ (case fl of
                       Some f \<Rightarrow> if fst (depth_gate opt (qel_depth qel) dsc)
                                  then [(f, qel_url qel)] else []
                     | None \<Rightarrow> [])"
    if "reuse_or_fetch env opt start_url_parsed qel st = Inr ((fl, dsc, True), st1)"
    for fl dsc st1
    using iteration_parses [OF that] by (cases fl) auto
  have 1: "reuse_or_fetch env opt start_url_parsed qel st = Inr ((Some f, True, True), st)
          \<and> (\<exists>st'. iteration env opt start_url_parsed qel st = Inr st'
                \<and> html_parses (events st') = html_parses (events st)
                \<and> css_parses (events st')
                    = css_parses (events st)
                      @ (if fst (depth_gate opt (qel_depth qel) True)
                         then [(f, qel_url qel)] else []))"
    if "cached_file env st qel = Some f
        \<and> qel_css_allowed qel \<and> in_downloaded_css env st f" for f
  proof -
    from that
    have r: "reuse_or_fetch env opt start_url_parsed qel st = Inr ((Some f, True, True), st)"
      by (simp add: reuse_or_fetch_cached)
    from 3 [OF r] r show ?thesis by simp
  qed
  have 2: "(\<forall>fl dsc c st1.
             reuse_or_fetch env opt start_url_parsed qel st = Inr ((fl, dsc, c), st1)
             \<longrightarrow> c \<and> fl = Some f)
          \<and> (rf_redirected res = None
               \<longrightarrow> reuse_or_fetch env opt start_url_parsed qel st
                    = Inr ((Some f, True, True), fetched_state qel res w1 st)
                 \<and> (\<exists>st'. iteration env opt start_url_parsed qel st = Inr st'
                       \<and> html_parses (events st') = html_parses (events st)
                       \<and> css_parses (events st')
                           = css_parses (events st)
                             @ (if fst (depth_gate opt (qel_depth qel) True)
                                then [(f, qel_url qel)] else [])))
          \<and> (\<forall>redirected r st2.
                rf_redirected res = Some redirected
                \<and> descend_redirect env opt redirected (qel_url qel) (qel_depth qel)
                      start_url_parsed (fetched_state qel res w1 st) = Inr (r, st2)
              \<longrightarrow> (\<exists>st'. iteration env opt start_url_parsed qel st = Inr st'
                    \<and> html_parses (events st') = html_parses (events st)
                    \<and> css_parses (events st')
                        = css_parses (events st)
                          @ (if r = WG_RR_SUCCESS \<and> fst (depth_gate opt (qel_depth qel) True)
                             then [(f, qel_url qel)] else [])))
          \<and> (\<forall>redirected e.
                rf_redirected res = Some redirected
                \<and> descend_redirect env opt redirected (qel_url qel) (qel_depth qel)
                      start_url_parsed (fetched_state qel res w1 st) = Inl e
              \<longrightarrow> iteration env opt start_url_parsed qel st
                  = Inl (e, fetched_state qel res w1 st))"
    if h: "cached_file env st qel = None
        \<and> retrieve_url env (qel_url qel) (qel_referer qel) (world st) = (res, w1)
        \<and> rf_file res = Some f \<and> rf_status res = RETROK \<and> RETROKF \<in> rf_dt res
        \<and> (TEXTCSS \<in> rf_dt res \<or> qel_css_allowed qel)" for res w1 f
  proof -
    from h have c: "fetch_css_cond qel res"
      by (simp add: fetch_css_cond_def)
    from h have n: "cached_file env st qel = None"
      and r: "retrieve_url env (qel_url qel) (qel_referer qel) (world st) = (res, w1)"
      and f: "rf_file res = Some f"
      by simp_all
    note rf = reuse_or_fetch_fresh [OF n r, of opt start_url_parsed]
    have a: "\<forall>fl dsc c st1.
             reuse_or_fetch env opt start_url_parsed qel st = Inr ((fl, dsc, c), st1)
             \<longrightarrow> c \<and> fl = Some f"
      unfolding rf Let_def
      using c f by (auto split: option.splits sum.splits prod.splits if_splits)
    have b: "reuse_or_fetch env opt start_url_parsed qel st
                    = Inr ((Some f, True, True), fetched_state qel res w1 st)
                 \<and> (\<exists>st'. iteration env opt start_url_parsed qel st = Inr st'
                       \<and> html_parses (events st') = html_parses (events st)
                       \<and> css_parses (events st')
                           = css_parses (events st)
                             @ (if fst (depth_gate opt (qel_depth qel) True)
                                then [(f, qel_url qel)] else []))"
      if nr: "rf_redirected res = None"
    proof -
      have e: "reuse_or_fetch env opt start_url_parsed qel st
                    = Inr ((Some f, True, True), fetched_state qel res w1 st)"
        using rf c f nr by (simp add: Let_def)
      from 3 [OF e] e show ?thesis by simp
    qed
    have d: "\<exists>st'. iteration env opt start_url_parsed qel st = Inr st'
                    \<and> html_parses (events st') = html_parses (events st)
                    \<and> css_parses (events st')
                        = css_parses (events st)
                          @ (if rr = WG_RR_SUCCESS \<and> fst (depth_gate opt (qel_depth qel) True)
                             then [(f, qel_url qel)] else [])"
      if rd: "rf_redirected res = Some redirected
                \<and> descend_redirect env opt redirected (qel_url qel) (qel_depth qel)
                      start_url_parsed (fetched_state qel res w1 st) = Inr (rr, st2)"
      for redirected rr st2
    proof (cases "rr = WG_RR_SUCCESS")
      case True
      have e: "reuse_or_fetch env opt start_url_parsed qel st
           = Inr ((Some f, True, True),
                  st2\<lparr>blacklist := blacklist_add env (blacklist st2) (url (qel_url qel))\<rparr>)"
        using rf c f rd True by (simp add: Let_def)
      from 3 [OF e] True show ?thesis by simp
    next
      case False
      have e: "reuse_or_fetch env opt start_url_parsed qel st
           = Inr ((Some f, False, True),
                  write_reject_log_reason rr (qel_url qel) start_url_parsed st2)"
        using rf c f rd False by (simp add: Let_def)
      from 3 [OF e] False show ?thesis by simp
    qed
    have ab: "iteration env opt start_url_parsed qel st = Inl (e, fetched_state qel res w1 st)"
      if "rf_redirected res = Some redirected
                \<and> descend_redirect env opt redirected (qel_url qel) (qel_depth qel)
                      start_url_parsed (fetched_state qel res w1 st) = Inl e"
      for redirected e
    proof -
      have "reuse_or_fetch env opt start_url_parsed qel st
          = Inl (e, fetched_state qel res w1 st)"
        using rf c that by (simp add: Let_def)
      then show ?thesis by (simp add: iteration_def)
    qed
    from a b d ab show ?thesis by blast
  qed
  have 4: "\<forall>d. fst (depth_gate opt d True)
          \<longleftrightarrow> d < reclevel opt \<or> reclevel opt = INFINITE_RECURSION
              \<or> (page_requisites opt \<and> (d = reclevel opt \<or> d = reclevel opt + 1))"
    by (intro allI) (rule depth_gate_True)
  from 1 2 3 4 show ?thesis by blast
qed

text \<open>
  The file of the start page is reused and is in both download sets; the item allows both
  extractors. At depth 0 under \<open>reclevel = 5\<close> it is parsed as CSS and not as HTML; at depth
  5 it is not parsed at all. A fetched item with \<open>css_allowed\<close> is parsed as CSS although
  the content type is HTML.
\<close>

theorem css_extractor_preferred_witness:
  "html_parses (events (projr (iteration
       (ex_env\<lparr>dl_url_file_map := (\<lambda>w. Some [''http://h/a/index.html'' \<mapsto> ''a/index.html'']),
               downloaded_html_set := (\<lambda>w. Some {''a/index.html''}),
               downloaded_css_set := (\<lambda>w. Some {''a/index.html''})\<rparr>)
       ex_opt ex_start
       \<lparr>qel_url = ex_start, qel_referer = None, qel_depth = 0,
        qel_html_allowed = True, qel_css_allowed = True\<rparr> ex_state))) = []
   \<and> css_parses (events (projr (iteration
       (ex_env\<lparr>dl_url_file_map := (\<lambda>w. Some [''http://h/a/index.html'' \<mapsto> ''a/index.html'']),
               downloaded_html_set := (\<lambda>w. Some {''a/index.html''}),
               downloaded_css_set := (\<lambda>w. Some {''a/index.html''})\<rparr>)
       ex_opt ex_start
       \<lparr>qel_url = ex_start, qel_referer = None, qel_depth = 0,
        qel_html_allowed = True, qel_css_allowed = True\<rparr> ex_state)))
     = [(''a/index.html'', ex_start)]
   \<and> html_parses (events (projr (iteration
       (ex_env\<lparr>dl_url_file_map := (\<lambda>w. Some [''http://h/a/index.html'' \<mapsto> ''a/index.html'']),
               downloaded_html_set := (\<lambda>w. Some {''a/index.html''}),
               downloaded_css_set := (\<lambda>w. Some {''a/index.html''})\<rparr>)
       ex_opt ex_start
       \<lparr>qel_url = ex_start, qel_referer = None, qel_depth = 5,
        qel_html_allowed = True, qel_css_allowed = True\<rparr> ex_state))) = []
   \<and> css_parses (events (projr (iteration
       (ex_env\<lparr>dl_url_file_map := (\<lambda>w. Some [''http://h/a/index.html'' \<mapsto> ''a/index.html'']),
               downloaded_html_set := (\<lambda>w. Some {''a/index.html''}),
               downloaded_css_set := (\<lambda>w. Some {''a/index.html''})\<rparr>)
       ex_opt ex_start
       \<lparr>qel_url = ex_start, qel_referer = None, qel_depth = 5,
        qel_html_allowed = True, qel_css_allowed = True\<rparr> ex_state))) = []
   \<and> html_parses (events (projr (iteration ex_env ex_opt ex_start
       \<lparr>qel_url = ex_start, qel_referer = None, qel_depth = 0,
        qel_html_allowed = True, qel_css_allowed = True\<rparr> ex_state))) = []
   \<and> css_parses (events (projr (iteration ex_env ex_opt ex_start
       \<lparr>qel_url = ex_start, qel_referer = None, qel_depth = 0,
        qel_html_allowed = True, qel_css_allowed = True\<rparr> ex_state)))
     = [(''a/index.html'', ex_start)]"
proof -
  let ?env = "ex_env\<lparr>dl_url_file_map := (\<lambda>w. Some [''http://h/a/index.html'' \<mapsto> ''a/index.html'']),
               downloaded_html_set := (\<lambda>w. Some {''a/index.html''}),
               downloaded_css_set := (\<lambda>w. Some {''a/index.html''})\<rparr>"
  let ?qel = "\<lparr>qel_url = ex_start, qel_referer = None, qel_depth = 0,
        qel_html_allowed = True, qel_css_allowed = True\<rparr>"
  let ?leaf = "\<lparr>qel_url = ex_start, qel_referer = None, qel_depth = 5,
        qel_html_allowed = True, qel_css_allowed = True\<rparr>"
  have h: "cached_file ?env ex_state ?qel = Some ''a/index.html''
        \<and> qel_css_allowed ?qel \<and> in_downloaded_css ?env ex_state ''a/index.html''"
    by code_simp
  have g: "fst (depth_gate ex_opt (qel_depth ?qel) True)"
    by code_simp
  have hl: "cached_file ?env ex_state ?leaf = Some ''a/index.html''
        \<and> qel_css_allowed ?leaf \<and> in_downloaded_css ?env ex_state ''a/index.html''"
    by code_simp
  have gl: "\<not> fst (depth_gate ex_opt (qel_depth ?leaf) True)"
    by code_simp
  from css_extractor_preferred [of ?env ex_state ?qel ex_opt ex_start] h
  obtain st' where i: "iteration ?env ex_opt ex_start ?qel ex_state = Inr st'"
    and p: "html_parses (events st') = html_parses (events ex_state)"
    and q: "css_parses (events st')
        = css_parses (events ex_state)
          @ (if fst (depth_gate ex_opt (qel_depth ?qel) True)
             then [(''a/index.html'', qel_url ?qel)] else [])"
    by blast
  have a: "html_parses (events (projr (iteration ?env ex_opt ex_start ?qel ex_state))) = []"
    using i p by (simp add: ex_state_def)
  have b: "css_parses (events (projr (iteration ?env ex_opt ex_start ?qel ex_state)))
     = [(''a/index.html'', ex_start)]"
    using i q g by (simp add: ex_state_def)
  from css_extractor_preferred [of ?env ex_state ?leaf ex_opt ex_start] hl
  obtain st'' where il: "iteration ?env ex_opt ex_start ?leaf ex_state = Inr st''"
    and pl: "html_parses (events st'') = html_parses (events ex_state)"
    and ql: "css_parses (events st'')
        = css_parses (events ex_state)
          @ (if fst (depth_gate ex_opt (qel_depth ?leaf) True)
             then [(''a/index.html'', qel_url ?leaf)] else [])"
    by blast
  have c: "html_parses (events (projr (iteration ?env ex_opt ex_start ?leaf ex_state))) = []"
    using il pl by (simp add: ex_state_def)
  have d: "css_parses (events (projr (iteration ?env ex_opt ex_start ?leaf ex_state))) = []"
    using il ql gl by (simp add: ex_state_def)
  have e: "html_parses (events (projr (iteration ex_env ex_opt ex_start ?qel ex_state))) = []"
    by code_simp
  have f: "css_parses (events (projr (iteration ex_env ex_opt ex_start ?qel ex_state)))
     = [(''a/index.html'', ex_start)]"
    by code_simp
  from a b c d e f show ?thesis by (intro conjI)
qed

text \<open>
  The claim as stated fails in two ways. First, for a reused file: the file of the start
  page is in the downloaded-HTML set and not in the downloaded-CSS set, and the item allows
  both extractors; both conditions of the claim hold (the second through \<open>css_allowed\<close>),
  and the file is parsed as HTML. The same happens for an item without \<open>css_allowed\<close> whose
  file is in both sets (the second condition holds through the membership). Second, at the
  depth limit: an item at depth 5 under \<open>reclevel = 5\<close>, fetched with success and an HTML
  content type, with both extractors allowed, meets both conditions and is parsed by no
  extractor.
\<close>

theorem css_extractor_counterexample:
  "html_descent_condition_claim
       (ex_env\<lparr>dl_url_file_map := (\<lambda>w. Some [''http://h/a/index.html'' \<mapsto> ''a/index.html'']),
               downloaded_html_set := (\<lambda>w. Some {''a/index.html''}),
               downloaded_css_set := (\<lambda>w. Some {})\<rparr>)
       ex_state
       \<lparr>qel_url = ex_start, qel_referer = None, qel_depth = 0,
        qel_html_allowed = True, qel_css_allowed = True\<rparr> {} ''a/index.html''
   \<and> css_descent_condition_claim
       (ex_env\<lparr>dl_url_file_map := (\<lambda>w. Some [''http://h/a/index.html'' \<mapsto> ''a/index.html'']),
               downloaded_html_set := (\<lambda>w. Some {''a/index.html''}),
               downloaded_css_set := (\<lambda>w. Some {})\<rparr>)
       ex_state
       \<lparr>qel_url = ex_start, qel_referer = None, qel_depth = 0,
        qel_html_allowed = True, qel_css_allowed = True\<rparr> {} ''a/index.html''
   \<and> html_parses (events (projr (iteration
       (ex_env\<lparr>dl_url_file_map := (\<lambda>w. Some [''http://h/a/index.html'' \<mapsto> ''a/index.html'']),
               downloaded_html_set := (\<lambda>w. Some {''a/index.html''}),
               downloaded_css_set := (\<lambda>w. Some {})\<rparr>)
       ex_opt ex_start
       \<lparr>qel_url = ex_start, qel_referer = None, qel_depth = 0,
        qel_html_allowed = True, qel_css_allowed = True\<rparr> ex_state)))
     = [(''a/index.html'', ex_start)]
   \<and> css_parses (events (projr (iteration
       (ex_env\<lparr>dl_url_file_map := (\<lambda>w. Some [''http://h/a/index.html'' \<mapsto> ''a/index.html'']),
               downloaded_html_set := (\<lambda>w. Some {''a/index.html''}),
               downloaded_css_set := (\<lambda>w. Some {})\<rparr>)
       ex_opt ex_start
       \<lparr>qel_url = ex_start, qel_referer = None, qel_depth = 0,
        qel_html_allowed = True, qel_css_allowed = True\<rparr> ex_state))) = []
   \<and> html_descent_condition_claim
       (ex_env\<lparr>dl_url_file_map := (\<lambda>w. Some [''http://h/a/index.html'' \<mapsto> ''a/index.html'']),
               downloaded_html_set := (\<lambda>w. Some {''a/index.html''}),
               downloaded_css_set := (\<lambda>w. Some {''a/index.html''})\<rparr>)
       ex_state
       \<lparr>qel_url = ex_start, qel_referer = None, qel_depth = 0,
        qel_html_allowed = True, qel_css_allowed = False\<rparr> {} ''a/index.html''
   \<and> css_descent_condition_claim
       (ex_env\<lparr>dl_url_file_map := (\<lambda>w. Some [''http://h/a/index.html'' \<mapsto> ''a/index.html'']),
               downloaded_html_set := (\<lambda>w. Some {''a/index.html''}),
               downloaded_css_set := (\<lambda>w. Some {''a/index.html''})\<rparr>)
       ex_state
       \<lparr>qel_url = ex_start, qel_referer = None, qel_depth = 0,
        qel_html_allowed = True, qel_css_allowed = False\<rparr> {} ''a/index.html''
   \<and> html_parses (events (projr (iteration
       (ex_env\<lparr>dl_url_file_map := (\<lambda>w. Some [''http://h/a/index.html'' \<mapsto> ''a/index.html'']),
               downloaded_html_set := (\<lambda>w. Some {''a/index.html''}),
               downloaded_css_set := (\<lambda>w. Some {''a/index.html''})\<rparr>)
       ex_opt ex_start
       \<lparr>qel_url = ex_start, qel_referer = None, qel_depth = 0,
        qel_html_allowed = True, qel_css_allowed = False\<rparr> ex_state)))
     = [(''a/index.html'', ex_start)]
   \<and> fst (retrieve_url ex_env ex_start None (world ex_state))
     = \<lparr>rf_status = RETROK, rf_file = Some ''a/index.html'', rf_redirected = None,
        rf_dt = {RETROKF, TEXTHTML}\<rparr>
   \<and> html_descent_condition_claim ex_env ex_state
       \<lparr>qel_url = ex_start, qel_referer = None, qel_depth = 5,
        qel_html_allowed = True, qel_css_allowed = True\<rparr> {RETROKF, TEXTHTML} ''a/index.html''
   \<and> css_descent_condition_claim ex_env ex_state
       \<lparr>qel_url = ex_start, qel_referer = None, qel_depth = 5,
        qel_html_allowed = True, qel_css_allowed = True\<rparr> {RETROKF, TEXTHTML} ''a/index.html''
   \<and> \<not> isl (iteration ex_env ex_opt ex_start
       \<lparr>qel_url = ex_start, qel_referer = None, qel_depth = 5,
        qel_html_allowed = True, qel_css_allowed = True\<rparr> ex_state)
   \<and> html_parses (events (projr (iteration ex_env ex_opt ex_start
       \<lparr>qel_url = ex_start, qel_referer = None, qel_depth = 5,
        qel_html_allowed = True, qel_css_allowed = True\<rparr> ex_state))) = []
   \<and> css_parses (events (projr (iteration ex_env ex_opt ex_start
       \<lparr>qel_url = ex_start, qel_referer = None, qel_depth = 5,
        qel_html_allowed = True, qel_css_allowed = True\<rparr> ex_state))) = []"
  by code_simp

subsection \<open>The redirect arbiter\<close>

text \<open>
  Claim C3. Let the redirect target parse to \<open>r\<close> and let the admission filter, run on
  \<open>r\<close> as a child of the fetched URL, give \<open>reason\<close>. If \<open>reason\<close> is \<open>WG_RR_SUCCESS\<close>,
  \<open>WG_RR_LIST\<close> or \<open>WG_RR_REGEX\<close>, then \<open>descend_redirect\<close> returns \<open>WG_RR_SUCCESS\<close> and
  \<open>r\<close> is in the seen-set; for any other reason it returns that reason. In the loop body,
  for a fetch that was redirected and for which descent was intended: in the first case
  \<^verbatim>\<open>descend\<close> stays set and the fetched URL joins the seen-set as well; in the second case
  \<^verbatim>\<open>descend\<close> is cleared, the rejection is logged, and the pass ends without a call of an
  extractor and without a change of the queue.
\<close>

theorem descend_redirect_outcomes:
  assumes "url_parse env redirected (ori_enc orig_parsed) = Some r"
    and "download_child env opt (redirect_upos r) orig_parsed d start_url_parsed st
       = (reason, st1)"
  shows "(reason \<in> {WG_RR_SUCCESS, WG_RR_LIST, WG_RR_REGEX}
        \<longrightarrow> descend_redirect env opt redirected orig_parsed d start_url_parsed st
             = Inr (WG_RR_SUCCESS, st1\<lparr>blacklist := blacklist_add env (blacklist st1) (url r)\<rparr>)
          \<and> blacklist_contains env (blacklist_add env (blacklist st1) (url r)) (url r))
    \<and> (reason \<notin> {WG_RR_SUCCESS, WG_RR_LIST, WG_RR_REGEX}
        \<longrightarrow> descend_redirect env opt redirected orig_parsed d start_url_parsed st
             = Inr (reason, st1))
    \<and> (\<forall>qel st0 res w1.
          cached_file env st0 qel = None
          \<and> retrieve_url env (qel_url qel) (qel_referer qel) (world st0) = (res, w1)
          \<and> rf_redirected res = Some redirected
          \<and> (fetch_html_cond qel res \<or> fetch_css_cond qel res)
          \<and> orig_parsed = qel_url qel \<and> d = qel_depth qel
          \<and> st = fetched_state qel res w1 st0
        \<longrightarrow> (reason \<in> {WG_RR_SUCCESS, WG_RR_LIST, WG_RR_REGEX}
              \<longrightarrow> reuse_or_fetch env opt start_url_parsed qel st0
                   = Inr ((rf_file res, True, fetch_css_cond qel res),
                          st1\<lparr>blacklist :=
                                blacklist_add env (blacklist_add env (blacklist st1) (url r))
                                  (url (qel_url qel))\<rparr>))
            \<and> (reason \<notin> {WG_RR_SUCCESS, WG_RR_LIST, WG_RR_REGEX}
              \<longrightarrow> reuse_or_fetch env opt start_url_parsed qel st0
                   = Inr ((rf_file res, False, fetch_css_cond qel res),
                          write_reject_log_reason reason (qel_url qel) start_url_parsed st1)
                \<and> (\<exists>st'. iteration env opt start_url_parsed qel st0 = Inr st'
                      \<and> queue st' = queue st0
                      \<and> html_parses (events st') = html_parses (events st0)
                      \<and> css_parses (events st') = css_parses (events st0))))"
proof -
  note dr = descend_redirect_eq [OF assms(1), of opt d start_url_parsed st]
  have a: "reason \<in> {WG_RR_SUCCESS, WG_RR_LIST, WG_RR_REGEX}
        \<longrightarrow> descend_redirect env opt redirected orig_parsed d start_url_parsed st
             = Inr (WG_RR_SUCCESS, st1\<lparr>blacklist := blacklist_add env (blacklist st1) (url r)\<rparr>)
          \<and> blacklist_contains env (blacklist_add env (blacklist st1) (url r)) (url r)"
    using dr assms(2) by (simp add: blacklist_contains_def blacklist_add_def)
  have b: "reason \<notin> {WG_RR_SUCCESS, WG_RR_LIST, WG_RR_REGEX}
        \<longrightarrow> descend_redirect env opt redirected orig_parsed d start_url_parsed st
             = Inr (reason, st1)"
    using dr assms(2) by simp
  have c: "(reason \<in> {WG_RR_SUCCESS, WG_RR_LIST, WG_RR_REGEX}
              \<longrightarrow> reuse_or_fetch env opt start_url_parsed qel st0
                   = Inr ((rf_file res, True, fetch_css_cond qel res),
                          st1\<lparr>blacklist :=
                                blacklist_add env (blacklist_add env (blacklist st1) (url r))
                                  (url (qel_url qel))\<rparr>))
            \<and> (reason \<notin> {WG_RR_SUCCESS, WG_RR_LIST, WG_RR_REGEX}
              \<longrightarrow> reuse_or_fetch env opt start_url_parsed qel st0
                   = Inr ((rf_file res, False, fetch_css_cond qel res),
                          write_reject_log_reason reason (qel_url qel) start_url_parsed st1)
                \<and> (\<exists>st'. iteration env opt start_url_parsed qel st0 = Inr st'
                      \<and> queue st' = queue st0
                      \<and> html_parses (events st') = html_parses (events st0)
                      \<and> css_parses (events st') = css_parses (events st0)))"
    if h: "cached_file env st0 qel = None
          \<and> retrieve_url env (qel_url qel) (qel_referer qel) (world st0) = (res, w1)
          \<and> rf_redirected res = Some redirected
          \<and> (fetch_html_cond qel res \<or> fetch_css_cond qel res)
          \<and> orig_parsed = qel_url qel \<and> d = qel_depth qel
          \<and> st = fetched_state qel res w1 st0" for qel st0 res w1
  proof -
    from h have n: "cached_file env st0 qel = None"
      and f: "retrieve_url env (qel_url qel) (qel_referer qel) (world st0) = (res, w1)"
      by simp_all
    note rf = reuse_or_fetch_fresh [OF n f, of opt start_url_parsed]
    have yes: "reuse_or_fetch env opt start_url_parsed qel st0
                   = Inr ((rf_file res, True, fetch_css_cond qel res),
                          st1\<lparr>blacklist :=
                                blacklist_add env (blacklist_add env (blacklist st1) (url r))
                                  (url (qel_url qel))\<rparr>)"
      if "reason \<in> {WG_RR_SUCCESS, WG_RR_LIST, WG_RR_REGEX}"
    proof -
      from a that
      have "descend_redirect env opt redirected orig_parsed d start_url_parsed st
             = Inr (WG_RR_SUCCESS, st1\<lparr>blacklist := blacklist_add env (blacklist st1) (url r)\<rparr>)"
        by blast
      with rf h show ?thesis by (simp add: Let_def)
    qed
    have no: "reuse_or_fetch env opt start_url_parsed qel st0
                   = Inr ((rf_file res, False, fetch_css_cond qel res),
                          write_reject_log_reason reason (qel_url qel) start_url_parsed st1)"
      if "reason \<notin> {WG_RR_SUCCESS, WG_RR_LIST, WG_RR_REGEX}"
    proof -
      from b that
      have "descend_redirect env opt redirected orig_parsed d start_url_parsed st
             = Inr (reason, st1)"
        by blast
      with rf h that show ?thesis by (simp add: Let_def)
    qed
    have "\<exists>st'. iteration env opt start_url_parsed qel st0 = Inr st'
                      \<and> queue st' = queue st0
                      \<and> html_parses (events st') = html_parses (events st0)
                      \<and> css_parses (events st') = css_parses (events st0)"
      if "reason \<notin> {WG_RR_SUCCESS, WG_RR_LIST, WG_RR_REGEX}"
      using iteration_no_descent [OF no [OF that]] by simp
    with yes no show ?thesis by blast
  qed
  from a b c show ?thesis by blast
qed

text \<open>
  Scenario S5: the fetch of the start URL on host \<^verbatim>\<open>h\<close> is redirected to host \<^verbatim>\<open>g\<close>, with
  span-host off. The arbiter returns \<open>WG_RR_SPANNEDHOST\<close>, and the crawl calls no extractor.
  With a directory list that refuses every directory, a redirect within host \<^verbatim>\<open>h\<close> is
  accepted all the same and its target is in the seen-set.
\<close>

theorem descend_redirect_outcomes_witness:
  "fst (projr (descend_redirect
       (ex_env\<lparr>url_parse := (\<lambda>s enc. if s = ''http://g/r''
                                then Some (ex_url SCHEME_HTTP ''g'' 80 [] ''r'') else None)\<rparr>)
       ex_opt ''http://g/r'' ex_start 0 ex_start ex_state)) = WG_RR_SPANNEDHOST
   \<and> fst (projr (descend_redirect
       (ex_env\<lparr>url_parse := (\<lambda>s enc. if s = ''http://h/r''
                                then Some (ex_url SCHEME_HTTP ''h'' 80 [] ''r'') else None),
               accdir := (\<lambda>d. False)\<rparr>)
       (ex_opt\<lparr>opt_includes := Some [''x'']\<rparr>) ''http://h/r'' ex_start 0 ex_start ex_state))
     = WG_RR_SUCCESS
   \<and> blacklist_contains ex_env
       (blacklist (snd (projr (descend_redirect
          (ex_env\<lparr>url_parse := (\<lambda>s enc. if s = ''http://h/r''
                                   then Some (ex_url SCHEME_HTTP ''h'' 80 [] ''r'') else None),
                  accdir := (\<lambda>d. False)\<rparr>)
          (ex_opt\<lparr>opt_includes := Some [''x'']\<rparr>) ''http://h/r'' ex_start 0 ex_start ex_state))))
       ''http://h/r''
   \<and> html_parses (events (snd (projr (the (retrieve_tree
       (ex_env\<lparr>url_parse := (\<lambda>s enc. if s = ''http://g/r''
                                then Some (ex_url SCHEME_HTTP ''g'' 80 [] ''r'') else None),
               get_urls_html := ex_site,
               retrieve_url := (\<lambda>u r w.
                 (\<lparr>rf_status = RETROK, rf_file = Some (path u),
                   rf_redirected = Some ''http://g/r'', rf_dt = {RETROKF, TEXTHTML}\<rparr>, w + 750))\<rparr>)
       ex_opt ex_start 2 0 (\<lambda>hp. None)))))) = []"
proof -
  let ?env = "ex_env\<lparr>url_parse := (\<lambda>s enc. if s = ''http://g/r''
                                then Some (ex_url SCHEME_HTTP ''g'' 80 [] ''r'') else None)\<rparr>"
  let ?r = "ex_url SCHEME_HTTP ''g'' 80 [] ''r''"
  let ?dc = "download_child ?env ex_opt (redirect_upos ?r) ex_start 0 ex_start ex_state"
  have 1: "url_parse ?env ''http://g/r'' (ori_enc ex_start) = Some ?r"
    by simp
  have 2: "?dc = (fst ?dc, snd ?dc)"
    by simp
  have 3: "fst ?dc = WG_RR_SPANNEDHOST"
    by code_simp
  then have "fst ?dc \<notin> {WG_RR_SUCCESS, WG_RR_LIST, WG_RR_REGEX}"
    by simp
  with descend_redirect_outcomes [OF 1 2]
  have "descend_redirect ?env ex_opt ''http://g/r'' ex_start 0 ex_start ex_state
      = Inr (fst ?dc, snd ?dc)"
    by blast
  with 3 have a: "fst (projr (descend_redirect ?env ex_opt ''http://g/r'' ex_start 0 ex_start
      ex_state)) = WG_RR_SPANNEDHOST"
    by simp
  have b: "fst (projr (descend_redirect
       (ex_env\<lparr>url_parse := (\<lambda>s enc. if s = ''http://h/r''
                                then Some (ex_url SCHEME_HTTP ''h'' 80 [] ''r'') else None),
               accdir := (\<lambda>d. False)\<rparr>)
       (ex_opt\<lparr>opt_includes := Some [''x'']\<rparr>) ''http://h/r'' ex_start 0 ex_start ex_state))
     = WG_RR_SUCCESS"
    by code_simp
  have c: "blacklist_contains ex_env
       (blacklist (snd (projr (descend_redirect
          (ex_env\<lparr>url_parse := (\<lambda>s enc. if s = ''http://h/r''
                                   then Some (ex_url SCHEME_HTTP ''h'' 80 [] ''r'') else None),
                  accdir := (\<lambda>d. False)\<rparr>)
          (ex_opt\<lparr>opt_includes := Some [''x'']\<rparr>) ''http://h/r'' ex_start 0 ex_start ex_state))))
       ''http://h/r''"
    by code_simp
  have d: "html_parses (events (snd (projr (the (retrieve_tree
       (ex_env\<lparr>url_parse := (\<lambda>s enc. if s = ''http://g/r''
                                then Some (ex_url SCHEME_HTTP ''g'' 80 [] ''r'') else None),
               get_urls_html := ex_site,
               retrieve_url := (\<lambda>u r w.
                 (\<lparr>rf_status = RETROK, rf_file = Some (path u),
                   rf_redirected = Some ''http://g/r'', rf_dt = {RETROKF, TEXTHTML}\<rparr>, w + 750))\<rparr>)
       ex_opt ex_start 2 0 (\<lambda>hp. None)))))) = []"
    by code_simp
  from a b c d show ?thesis by (intro conjI)
qed


end
